theory Spec2Isabelle
  imports Complex_Main "HOL-Library.AList"
begin

section \<open>Python values, exceptions and JSON documents\<close>

text \<open>
  The three scripts (collector \<^verbatim>\<open>DataSnatcherICEEV.py\<close>, exporter \<^verbatim>\<open>toExcel.py\<close>,
  dashboard \<^verbatim>\<open>streamlit_dashboard.py\<close>) are embedded as HOL functions.

  \<^item> A number stored in a JSON file is a \<open>pynum\<close>: an \<open>int\<close>, or a \<open>float\<close> given by its
    exact value, a rational; a statement about such a number reads it through
    \<open>num_val\<close>. \<^verbatim>\<open>NaN\<close> and \<^verbatim>\<open>Infinity\<close>, which Python's \<^verbatim>\<open>json\<close> reads too, are not
    among them.
  \<^item> Where a result depends on the rounding of IEEE 754 doubles, the rounding is
    embedded: \<^verbatim>\<open>float(str)\<close> and the division in \<^verbatim>\<open>extract_value\<close>, whose result is a
    \<open>pyval\<close> (an \<open>int\<close>, or a \<open>float\<close> that is a double or an infinity), and the exporter's
    division and \<^verbatim>\<open>round\<close> on a matrix of ints. The exporter's arithmetic is otherwise a
    parameter. \<^verbatim>\<open>statistics.mean\<close> in the collector is the exact mean, which Python rounds
    to the nearest double when the data are floats.
  \<^item> Strings are lists of (8-bit) characters; the model covers ASCII text.
  \<^item> A raised exception is the \<open>Inl\<close> branch of a sum; \<open>print\<close> output is not modelled.
  \<^item> A dictionary is an association list in insertion order, read with \<open>map_of\<close> and
    written with \<open>AList.update\<close> (replace in place, or append a new key).
\<close>

datatype pynum = PyInt int | PyFloat rat

fun num_val :: "pynum \<Rightarrow> rat" where
  "num_val (PyInt i) = of_int i"
| "num_val (PyFloat r) = r"

fun is_PyInt :: "pynum \<Rightarrow> bool" where
  "is_PyInt (PyInt i) = True"
| "is_PyInt (PyFloat r) = False"

datatype py_error =
  FileNotFoundError | JSONDecodeError | KeyError | TypeError | IndexError
  | AttributeError | ValueError | OverflowError | ZeroDivisionError

text \<open>What \<^verbatim>\<open>json.load\<close> returns: \<open>None\<close>, a bool, a number, a str, a list or a dict.\<close>

datatype json =
  JNull | JBool bool | JNum pynum | JStr string | JArr "json list"
  | JObj "(string \<times> json) list"

text \<open>\<^verbatim>\<open>d.get(key, default)\<close>\<close>

definition dict_get :: "('k \<times> 'v) list \<Rightarrow> 'k \<Rightarrow> 'v \<Rightarrow> 'v" where
  "dict_get d k dflt = (case map_of d k of None \<Rightarrow> dflt | Some v \<Rightarrow> v)"

definition err_bind :: "'e + 'a \<Rightarrow> ('a \<Rightarrow> 'e + 'b) \<Rightarrow> 'e + 'b" where
  "err_bind m f = (case m of Inl e \<Rightarrow> Inl e | Inr x \<Rightarrow> f x)"

text \<open>Truth value of an object in a condition.\<close>

fun truthy :: "json \<Rightarrow> bool" where
  "truthy JNull = False"
| "truthy (JBool b) = b"
| "truthy (JNum n) = (num_val n \<noteq> 0)"
| "truthy (JStr s) = (s \<noteq> [])"
| "truthy (JArr xs) = (xs \<noteq> [])"
| "truthy (JObj kvs) = (kvs \<noteq> [])"

fun is_substring :: "string \<Rightarrow> string \<Rightarrow> bool" where
  "is_substring xs [] = (xs = [])"
| "is_substring xs (y # ys) = (take (length xs) (y # ys) = xs \<or> is_substring xs ys)"

text \<open>\<^verbatim>\<open>key in obj\<close> for a str key: key membership for a dict, element membership for a
  list, substring test for a str, \<^verbatim>\<open>TypeError\<close> otherwise.\<close>

fun py_contains :: "string \<Rightarrow> json \<Rightarrow> py_error + bool" where
  "py_contains k (JObj kvs) = Inr (k \<in> set (map fst kvs))"
| "py_contains k (JArr xs) = Inr (JStr k \<in> set xs)"
| "py_contains k (JStr s) = Inr (is_substring k s)"
| "py_contains k JNull = Inl TypeError"
| "py_contains k (JBool b) = Inl TypeError"
| "py_contains k (JNum n) = Inl TypeError"

text \<open>\<^verbatim>\<open>obj[key]\<close> for a str key: only a dict can be subscripted by a str.\<close>

fun py_getitem :: "json \<Rightarrow> string \<Rightarrow> py_error + json" where
  "py_getitem (JObj kvs) k = (case map_of kvs k of None \<Rightarrow> Inl KeyError | Some v \<Rightarrow> Inr v)"
| "py_getitem (JArr xs) k = Inl TypeError"
| "py_getitem (JStr s) k = Inl TypeError"
| "py_getitem JNull k = Inl TypeError"
| "py_getitem (JBool b) k = Inl TypeError"
| "py_getitem (JNum n) k = Inl TypeError"

text \<open>\<^verbatim>\<open>obj[0]\<close>. The keys of a dict read from JSON are strings, so \<open>0\<close> is never one.\<close>

fun py_index0 :: "json \<Rightarrow> py_error + json" where
  "py_index0 (JArr xs) = (case xs of [] \<Rightarrow> Inl IndexError | x # _ \<Rightarrow> Inr x)"
| "py_index0 (JStr s) = (case s of [] \<Rightarrow> Inl IndexError | c # _ \<Rightarrow> Inr (JStr [c]))"
| "py_index0 (JObj kvs) = Inl KeyError"
| "py_index0 JNull = Inl TypeError"
| "py_index0 (JBool b) = Inl TypeError"
| "py_index0 (JNum n) = Inl TypeError"

fun py_len :: "json \<Rightarrow> py_error + nat" where
  "py_len (JArr xs) = Inr (length xs)"
| "py_len (JStr s) = Inr (length s)"
| "py_len (JObj kvs) = Inr (length (remdups (map fst kvs)))"
| "py_len JNull = Inl TypeError"
| "py_len (JBool b) = Inl TypeError"
| "py_len (JNum n) = Inl TypeError"

text \<open>\<^verbatim>\<open>str.strip()\<close>: the ASCII characters Python counts as whitespace.\<close>

definition is_space :: "char \<Rightarrow> bool" where
  "is_space c \<longleftrightarrow> (of_char c :: nat) \<in> {9, 10, 11, 12, 13, 28, 29, 30, 31, 32}"

definition py_strip :: "string \<Rightarrow> string" where
  "py_strip s = rev (dropWhile is_space (rev (dropWhile is_space s)))"

fun py_str_strip :: "json \<Rightarrow> py_error + string" where
  "py_str_strip (JStr s) = Inr (py_strip s)"
| "py_str_strip JNull = Inl AttributeError"
| "py_str_strip (JBool b) = Inl AttributeError"
| "py_str_strip (JNum n) = Inl AttributeError"
| "py_str_strip (JArr xs) = Inl AttributeError"
| "py_str_strip (JObj kvs) = Inl AttributeError"

text \<open>\<^verbatim>\<open>s.split(c)\<close> for a one-character separator.\<close>

fun py_split :: "char \<Rightarrow> string \<Rightarrow> string list" where
  "py_split c [] = [[]]"
| "py_split c (x # xs) =
     (if x = c then [] # py_split c xs
      else (case py_split c xs of [] \<Rightarrow> [[x]] | l # ls \<Rightarrow> (x # l) # ls))"

section \<open>Python floats\<close>

text \<open>
  A Python float is an IEEE 754 double. A finite double is given by its exact value, a
  rational \<open>m * 2 ^ e\<close> with \<open>\<bar>m\<bar> < 2 ^ 53\<close> and \<open>- 1074 \<le> e \<le> 971\<close>; the two infinities
  are values of their own. Signed zeros are not told apart and no operation modelled
  here produces a NaN.
\<close>

datatype pyfloat = Finite rat | PosInf | NegInf

text \<open>Rounding to the nearest integer, a tie to the even one.\<close>

definition round_half_even :: "rat \<Rightarrow> int" where
  "round_half_even x =
     (let f = \<lfloor>x\<rfloor>; d = x - of_int f
      in if d < 1 / 2 then f else if 1 / 2 < d then f + 1 else if even f then f else f + 1)"

text \<open>
  Rounding a rational \<open>0 \<le> x\<close> to the nearest double, a tie to the even mantissa, as
  \<^verbatim>\<open>float(str)\<close>, the division of two floats and the true division of two ints do.
  \<open>x\<close> is written as \<open>y * u\<close> with the unit \<open>u = 2 ^ e\<close>, first \<open>u = 1\<close>: \<open>scale_down\<close>
  doubles the unit while \<open>2 ^ 53 \<le> y\<close>, \<open>scale_up\<close> halves it while \<open>y < 2 ^ 52\<close>, down to
  the unit \<open>2 ^ - 1074\<close> of the subnormal doubles. Then \<open>y\<close> is rounded to an integer
  mantissa. A result that reaches \<open>2 ^ 1024\<close> is out of range; \<open>scale_down\<close> stops at the
  unit \<open>2 ^ 972\<close>, at which every result is.
\<close>

function scale_down :: "rat \<Rightarrow> rat \<Rightarrow> int \<Rightarrow> rat \<times> rat" where
  "scale_down y u e =
     (if 2 ^ 53 \<le> y \<and> e < 972 then scale_down (y / 2) (u * 2) (e + 1) else (y, u))"
  by pat_completeness auto
termination
  by (relation "measure (\<lambda>(y, u, e). nat (972 - e))") auto

function scale_up :: "rat \<Rightarrow> rat \<Rightarrow> int \<Rightarrow> rat \<times> rat" where
  "scale_up y u e =
     (if y < 2 ^ 52 \<and> - 1074 < e then scale_up (y * 2) (u / 2) (e - 1) else (y, u))"
  by pat_completeness auto
termination
  by (relation "measure (\<lambda>(y, u, e). nat (e + 1074))") auto

declare scale_down.simps [simp del] scale_up.simps [simp del]

definition nearest_double :: "rat \<Rightarrow> rat" where
  "nearest_double x =
     (if x = 0 then 0
      else (case (if 2 ^ 53 \<le> x then scale_down x 1 0 else scale_up x 1 0) of
              (y, u) \<Rightarrow> of_int (round_half_even y) * u))"

definition round_double :: "rat \<Rightarrow> pyfloat" where
  "round_double x =
     (let r = nearest_double \<bar>x\<bar>
      in if 2 ^ 1024 \<le> r then (if x < 0 then NegInf else PosInf)
         else Finite (if x < 0 then - r else r))"

text \<open>A Python number as a function returns it: an \<open>int\<close> or a \<open>float\<close>.\<close>

datatype pyval = IntVal int | FloatVal pyfloat

fun val_of :: "pyval \<Rightarrow> pyfloat" where
  "val_of (IntVal i) = Finite (of_int i)"
| "val_of (FloatVal f) = f"

section \<open>Collector: \<^verbatim>\<open>extract_value\<close>\<close>

definition is_digit :: "char \<Rightarrow> bool" where
  "is_digit c \<longleftrightarrow> 48 \<le> (of_char c :: nat) \<and> (of_char c :: nat) \<le> 57"

text \<open>The characters that \<^verbatim>\<open>re.sub(r'[^\d.]', '', content)\<close> keeps.\<close>

definition numeric_char :: "char \<Rightarrow> bool" where
  "numeric_char c \<longleftrightarrow> is_digit c \<or> c = CHR ''.''"

definition numeric_residue :: "string \<Rightarrow> string" where
  "numeric_residue content = filter numeric_char content"

definition digits_val :: "string \<Rightarrow> nat" where
  "digits_val ds = foldl (\<lambda>n c. 10 * n + (of_char c - 48)) 0 ds"

text \<open>
  The number that a string of digits and points denotes, which is all the regular
  expression leaves: digits with at most one point and at least one digit denote their
  decimal value, anything else is no number (\<open>None\<close>).
\<close>

definition decimal_value :: "string \<Rightarrow> rat option" where
  "decimal_value s =
     (let ip = takeWhile (\<lambda>c. c \<noteq> CHR ''.'') s;
          rest = dropWhile (\<lambda>c. c \<noteq> CHR ''.'') s;
          fp = tl rest
      in if \<not> list_all is_digit ip then None
         else if rest = [] then (if ip = [] then None else Some (of_nat (digits_val ip)))
         else if \<not> list_all is_digit fp \<or> (ip = [] \<and> fp = []) then None
         else Some (of_nat (digits_val ip) + of_nat (digits_val fp) / 10 ^ length fp))"

text \<open>
  \<^verbatim>\<open>float(numeric_str)\<close>: the double nearest to the decimal value, \<^verbatim>\<open>inf\<close> when that is
  out of range; a string that denotes no number raises \<^verbatim>\<open>ValueError\<close> (\<open>None\<close>).
\<close>

definition py_float :: "string \<Rightarrow> pyfloat option" where
  "py_float s = map_option round_double (decimal_value s)"

text \<open>\<^verbatim>\<open>value > 1000\<close> and \<^verbatim>\<open>value / 1000\<close> for a float \<open>value\<close>: the int 1000 is
  converted to the double 1000.0, and the quotient is rounded to the nearest double.\<close>

fun gt_1000 :: "pyfloat \<Rightarrow> bool" where
  "gt_1000 (Finite v) = (1000 < v)"
| "gt_1000 PosInf = True"
| "gt_1000 NegInf = False"

fun div_1000 :: "pyfloat \<Rightarrow> pyfloat" where
  "div_1000 (Finite v) = round_double (v / 1000)"
| "div_1000 PosInf = PosInf"
| "div_1000 NegInf = NegInf"

text \<open>\<^verbatim>\<open>value.is_integer()\<close> for a finite value; it is \<^verbatim>\<open>False\<close> for an infinity.\<close>

definition is_integer :: "rat \<Rightarrow> bool" where
  "is_integer v \<longleftrightarrow> of_int \<lfloor>v\<rfloor> = v"

text \<open>Line 56: \<^verbatim>\<open>int(value) if value.is_integer() else value\<close>\<close>

fun int_if_whole :: "pyfloat \<Rightarrow> pyval" where
  "int_if_whole (Finite v) = (if is_integer v then IntVal \<lfloor>v\<rfloor> else FloatVal (Finite v))"
| "int_if_whole PosInf = FloatVal PosInf"
| "int_if_whole NegInf = FloatVal NegInf"

definition extract_value :: "string \<Rightarrow> pyval" where
  "extract_value content =
     (let content = py_strip content;
          numeric_str = filter (\<lambda>c. is_digit c \<or> c = CHR ''.'') content
      in if numeric_str = [] then IntVal 0
         else (case py_float numeric_str of
                 None \<Rightarrow> IntVal 0
               | Some parsed \<Rightarrow>
                   int_if_whole (if gt_1000 parsed then div_1000 parsed else parsed)))"

text \<open>The guard shared by \<^verbatim>\<open>extract_content\<close> and the car-list fetch:
  \<^verbatim>\<open>response and "choices" in response and len(response["choices"]) > 0\<close>.
  \<open>None\<close> is the \<^verbatim>\<open>None\<close> that \<^verbatim>\<open>query_x_api\<close> returns on a failed call.\<close>

definition has_choices :: "json option \<Rightarrow> py_error + bool" where
  "has_choices response =
     (case response of
        None \<Rightarrow> Inr False
      | Some r \<Rightarrow>
          if \<not> truthy r then Inr False
          else err_bind (py_contains ''choices'' r) (\<lambda>present.
               if \<not> present then Inr False
               else err_bind (py_getitem r ''choices'') (\<lambda>cs.
                    err_bind (py_len cs) (\<lambda>n. Inr (0 < n)))))"

text \<open>\<^verbatim>\<open>response["choices"][0]["message"]["content"].strip()\<close>\<close>

definition first_content :: "json \<Rightarrow> py_error + string" where
  "first_content r =
     err_bind (py_getitem r ''choices'') (\<lambda>cs.
     err_bind (py_index0 cs) (\<lambda>c.
     err_bind (py_getitem c ''message'') (\<lambda>m.
     err_bind (py_getitem m ''content'') py_str_strip)))"

definition extract_content :: "json option \<Rightarrow> py_error + pyval" where
  "extract_content response =
     err_bind (has_choices response) (\<lambda>ok.
       case (ok, response) of
         (True, Some r) \<Rightarrow> err_bind (first_content r) (\<lambda>content. Inr (extract_value content))
       | _ \<Rightarrow> Inr (IntVal 0))"

section \<open>Collector, step 1: load the catalog or regenerate it\<close>

text \<open>The catalog file as \<^verbatim>\<open>open\<close> and \<^verbatim>\<open>json.load\<close> see it: missing
  (\<^verbatim>\<open>FileNotFoundError\<close>), not JSON (\<^verbatim>\<open>JSONDecodeError\<close>), or a parsed document.
  Writing with \<^verbatim>\<open>json.dump\<close> leaves the file holding the dumped document.\<close>

datatype json_file = NoFile | BadJSON | Parsed json

text \<open>The part of the world that step 1 touches: the catalog file and the prompts sent
  to the API so far.\<close>

record world =
  catalog_file :: json_file
  api_log :: "string list"

text \<open>How step 1 ends: the script goes on with \<open>kpi_list\<close> and \<open>car_list\<close>, calls
  \<^verbatim>\<open>sys.exit\<close>, or dies from an exception nothing catches.\<close>

datatype step1_result = Proceed json json | Exit nat | Uncaught py_error

text \<open>The exit status of the process; an uncaught exception ends the interpreter with 1.\<close>

fun exit_status :: "step1_result \<Rightarrow> nat option" where
  "exit_status (Proceed kpi_list car_list) = None"
| "exit_status (Exit n) = Some n"
| "exit_status (Uncaught e) = Some 1"

text \<open>Lines 73 to 84: the body of the \<^verbatim>\<open>try\<close>, which yields \<open>(kpi_list, car_list)\<close>.\<close>

definition load_catalog :: "json_file \<Rightarrow> py_error + (json \<times> json)" where
  "load_catalog f =
     (case f of
        NoFile \<Rightarrow> Inl FileNotFoundError
      | BadJSON \<Rightarrow> Inl JSONDecodeError
      | Parsed data \<Rightarrow>
          err_bind (py_getitem data ''top_5_KPIs'') (\<lambda>kpi_list.
          err_bind (py_contains ''top_cars_US_2024'' data) (\<lambda>new_key.
          err_bind (if new_key then py_getitem data ''top_cars_US_2024''
                    else err_bind (py_contains ''top_bought_cars_US'' data) (\<lambda>old_key.
                           if old_key then py_getitem data ''top_bought_cars_US''
                           else Inl KeyError)) (\<lambda>car_list.
          err_bind (py_len car_list) (\<lambda>n.
            if n \<noteq> 20 then Inl KeyError else Inr (kpi_list, car_list))))))"

definition prompt_cars :: string where
  "prompt_cars = ''List the 10 most bought Internal Combustion Engine (ICE) cars and the 10 most bought Electric Vehicles (EV) in the US for 2024 as a simple list of names with specific model tiers (e.g., '' @ [CHR 0x27] @ ''Toyota Camry LE'' @ [CHR 0x27] @ '', '' @ [CHR 0x27] @ ''Tesla Model 3 Long Range'' @ [CHR 0x27] @ ''), one per line, no numbers or extra text.''"

definition all_kpis :: "string list" where
  "all_kpis =
     [''Fuel Efficiency (MPG)'', ''Acceleration (0-60 mph)'', ''Range (miles)'',
      ''Maintenance Cost'', ''Cost Over Ownership'', ''Passenger Capacity'',
      ''Cargo Space (cu ft)'', ''Towing Capacity (lbs)'', ''Horsepower'']"

definition excluded_kpis :: "string list" where
  "excluded_kpis = [''Reliability Rating'', ''Safety Rating'', ''Resale Value'']"

definition available_kpis :: "string list" where
  "available_kpis = filter (\<lambda>kpi. kpi \<notin> set excluded_kpis) all_kpis"

text \<open>
  \<^verbatim>\<open>random.sample(population, k)\<close> for a small population, as the standard library
  does it: \<open>k\<close> times, draw an index below the number of items left in the pool, take
  that item and move the last item of the pool into its place. The random source is
  the parameter \<open>rng\<close>: the draw of round \<open>i\<close> is \<open>rng i\<close> reduced below the pool size.
  A sample larger than the population raises \<^verbatim>\<open>ValueError\<close>.
\<close>

fun sample_loop :: "(nat \<Rightarrow> nat) \<Rightarrow> nat \<Rightarrow> nat \<Rightarrow> 'a list \<Rightarrow> 'a list" where
  "sample_loop rng i 0 pool = []"
| "sample_loop rng i (Suc k) pool =
     (let j = rng i mod length pool
      in pool ! j # sample_loop rng (Suc i) k (butlast (pool[j := last pool])))"

definition random_sample :: "(nat \<Rightarrow> nat) \<Rightarrow> 'a list \<Rightarrow> nat \<Rightarrow> py_error + 'a list" where
  "random_sample rng population k =
     (if k \<le> length population then Inr (sample_loop rng 0 k population) else Inl ValueError)"

text \<open>Lines 93 to 101 up to the length test: \<open>Inr None\<close> is the \<^verbatim>\<open>else\<close> branch (the
  fetch failed), \<open>Inr (Some cars)\<close> the cleaned list of names.\<close>

definition fetch_car_list :: "json option \<Rightarrow> py_error + string list option" where
  "fetch_car_list response_cars =
     err_bind (has_choices response_cars) (\<lambda>ok.
       case (ok, response_cars) of
         (True, Some r) \<Rightarrow>
           err_bind (first_content r) (\<lambda>content.
             Inr (Some (filter (\<lambda>car. car \<noteq> []) (map py_strip (py_split (CHR 0x0A) content)))))
       | _ \<Rightarrow> Inr None)"

text \<open>What \<^verbatim>\<open>json.dump(data, json_file, indent=4)\<close> writes at line 117.\<close>

definition catalog_json :: "string list \<Rightarrow> string list \<Rightarrow> json" where
  "catalog_json car_list kpi_list =
     JObj [(''top_cars_US_2024'', JArr (map JStr car_list)),
           (''top_5_KPIs'', JArr (map JStr kpi_list))]"

text \<open>Lines 77 to 82: the car list of a catalog object, under the current key or else
  under the old one.\<close>

definition catalog_car_list :: "(string \<times> json) list \<Rightarrow> json option" where
  "catalog_car_list kvs =
     (case map_of kvs ''top_cars_US_2024'' of
        Some car_list \<Rightarrow> Some car_list
      | None \<Rightarrow> map_of kvs ''top_bought_cars_US'')"

text \<open>Lines 89 to 118: the \<^verbatim>\<open>except\<close> branch. \<open>api\<close> is \<^verbatim>\<open>query_x_api\<close>: the parsed reply
  to a prompt, or \<open>None\<close> for a status other than 200 or a body that is not JSON. An
  exception raised by the HTTP client itself is not modelled.\<close>

definition regenerate :: "(string \<Rightarrow> json option) \<Rightarrow> (nat \<Rightarrow> nat) \<Rightarrow> world \<Rightarrow> world \<times> step1_result" where
  "regenerate api rng w =
     (let w1 = w\<lparr>api_log := api_log w @ [prompt_cars]\<rparr>
      in case fetch_car_list (api prompt_cars) of
           Inl e \<Rightarrow> (w1, Uncaught e)
         | Inr None \<Rightarrow> (w1, Exit 1)
         | Inr (Some car_list) \<Rightarrow>
             if length car_list \<noteq> 20 then (w1, Exit 1)
             else (case random_sample rng available_kpis 5 of
                     Inl e \<Rightarrow> (w1, Uncaught e)
                   | Inr kpi_list \<Rightarrow>
                       (w1\<lparr>catalog_file := Parsed (catalog_json car_list kpi_list)\<rparr>,
                        Proceed (JArr (map JStr kpi_list)) (JArr (map JStr car_list)))))"

text \<open>Lines 72 to 118. The handler catches \<^verbatim>\<open>FileNotFoundError\<close>,
  \<^verbatim>\<open>JSONDecodeError\<close> and \<^verbatim>\<open>KeyError\<close>; any other exception is not caught.\<close>

definition step1 :: "(string \<Rightarrow> json option) \<Rightarrow> (nat \<Rightarrow> nat) \<Rightarrow> world \<Rightarrow> world \<times> step1_result" where
  "step1 api rng w =
     (case load_catalog (catalog_file w) of
        Inr (kpi_list, car_list) \<Rightarrow> (w, Proceed kpi_list car_list)
      | Inl e \<Rightarrow>
          if e \<in> {FileNotFoundError, JSONDecodeError, KeyError} then regenerate api rng w
          else (w, Uncaught e))"

section \<open>Collector, step 3: the \<^verbatim>\<open>Average\<close> row\<close>

text \<open>\<^verbatim>\<open>car_kpi_data\<close>: car name to KPI name to a number or \<^verbatim>\<open>None\<close> (the inner
  \<open>None\<close>). A cell is a finite number, a float by its exact value; the \<^verbatim>\<open>inf\<close> that
  \<open>extract_value\<close> returns for a content of more than 308 digits is not among them.\<close>

type_synonym matrix = "(string \<times> (string \<times> pynum option) list) list"

text \<open>\<^verbatim>\<open>car_kpi_data[car][kpi]\<close>\<close>

definition cell :: "matrix \<Rightarrow> string \<Rightarrow> string \<Rightarrow> py_error + pynum option" where
  "cell m car kpi =
     (case map_of m car of
        None \<Rightarrow> Inl KeyError
      | Some row \<Rightarrow> (case map_of row kpi of None \<Rightarrow> Inl KeyError | Some v \<Rightarrow> Inr v))"

text \<open>Line 137:
  \<^verbatim>\<open>[car_kpi_data[car][kpi] for car in car_list if car_kpi_data[car][kpi] is not None]\<close>\<close>

fun present_values :: "matrix \<Rightarrow> string \<Rightarrow> string list \<Rightarrow> py_error + pynum list" where
  "present_values m kpi [] = Inr []"
| "present_values m kpi (car # cars) =
     (case cell m car kpi of
        Inl e \<Rightarrow> Inl e
      | Inr None \<Rightarrow> present_values m kpi cars
      | Inr (Some v) \<Rightarrow> err_bind (present_values m kpi cars) (\<lambda>vs. Inr (v # vs)))"

text \<open>\<^verbatim>\<open>statistics.mean\<close> of a non-empty list: the exact mean, an \<open>int\<close> when all data are
  ints and the mean is whole, a \<open>float\<close> otherwise.\<close>

definition statistics_mean :: "pynum list \<Rightarrow> pynum" where
  "statistics_mean vs =
     (let q = sum_list (map num_val vs) / of_nat (length vs)
      in if list_all is_PyInt vs \<and> is_integer q then PyInt \<lfloor>q\<rfloor> else PyFloat q)"

text \<open>Line 138: \<^verbatim>\<open>statistics.mean(kpi_values) if kpi_values else 0\<close>\<close>

definition avg_value_of :: "pynum list \<Rightarrow> pynum" where
  "avg_value_of kpi_values = (if kpi_values \<noteq> [] then statistics_mean kpi_values else PyInt 0)"

text \<open>Lines 136 to 139, one round of the loop per KPI.\<close>

fun average_loop :: "string list \<Rightarrow> string list \<Rightarrow> matrix \<Rightarrow> py_error + matrix" where
  "average_loop car_list [] m = Inr m"
| "average_loop car_list (kpi # kpis) m =
     err_bind (present_values m kpi car_list) (\<lambda>kpi_values.
       case map_of m ''Average'' of
         None \<Rightarrow> Inl KeyError
       | Some avg_row \<Rightarrow>
           average_loop car_list kpis
             (AList.update ''Average''
                (AList.update kpi (Some (avg_value_of kpi_values)) avg_row) m))"

text \<open>Lines 135 to 139.\<close>

definition step3 :: "string list \<Rightarrow> string list \<Rightarrow> matrix \<Rightarrow> py_error + matrix" where
  "step3 car_list kpi_list car_kpi_data =
     average_loop car_list kpi_list (AList.update ''Average'' [] car_kpi_data)"

section \<open>Exporter: validation and averages\<close>

text \<open>
  The exporter's inputs, typed as its annotations type them: the value matrix is a
  \<^verbatim>\<open>Dict[str, Dict[str, Union[int, float]]]\<close>, car and KPI names are \<^verbatim>\<open>str\<close>. An entry
  of the catalog is a list of names, or anything that is not a list (\<open>CatOther\<close>), which
  is all that \<^verbatim>\<open>isinstance(..., list)\<close> asks. The exporter is embedded for every type
  \<open>'v\<close> of stored numbers; the dashboard reads the same file with \<open>pynum\<close> entries.
\<close>

type_synonym 'v car_values = "(string \<times> (string \<times> 'v) list) list"

type_synonym value_matrix = "pynum car_values"

datatype cat_entry = CatList "string list" | CatOther

type_synonym kpi_catalog = "(string \<times> cat_entry) list"






text \<open>
  The arithmetic of \<open>calculate_averages\<close> is the interpreter's, and the embedding takes
  it as a parameter: \<open>'v\<close> is the type of the numbers stored in the value matrix, \<open>'n\<close>
  that of the numbers computed from them.

  \<^item> \<open>entry_0\<close> is the int \<open>0\<close> of \<^verbatim>\<open>.get(kpi, 0)\<close>, \<open>average_0\<close> the int \<open>0\<close> of line 136;
  \<^item> \<open>py_sum\<close> is \<^verbatim>\<open>sum\<close> on a list of stored numbers;
  \<^item> \<open>py_truediv s n\<close> is \<^verbatim>\<open>s / n\<close> for the length \<open>n\<close> of a list;
  \<^item> \<open>py_round2\<close> is \<^verbatim>\<open>round(avg, 2)\<close>.

  Each operation may raise (an int too large for a float raises \<^verbatim>\<open>OverflowError\<close>).
\<close>

record ('v, 'n) arith =
  entry_0 :: 'v
  average_0 :: 'n
  py_sum :: "'v list \<Rightarrow> py_error + 'n"
  py_truediv :: "'n \<Rightarrow> nat \<Rightarrow> py_error + 'n"
  py_round2 :: "'n \<Rightarrow> py_error + 'n"

text \<open>
  The arithmetic on a value matrix whose entries are ints, with the computed numbers in
  \<open>pynum\<close> (a float by its exact value). The sum of ints is exact; the quotient of two
  ints is the double nearest to the exact quotient, and \<^verbatim>\<open>OverflowError\<close> when that is
  out of range; \<^verbatim>\<open>round(x, 2)\<close> of a float is the double nearest to the decimal with two
  places that is nearest to \<open>x\<close> (a tie to the even last place), and an int is returned
  as it is. A float is divided by an int as by the double of that int.
\<close>

definition finite_or_overflow :: "pyfloat \<Rightarrow> py_error + pynum" where
  "finite_or_overflow f =
     (case f of Finite q \<Rightarrow> Inr (PyFloat q) | PosInf \<Rightarrow> Inl OverflowError | NegInf \<Rightarrow> Inl OverflowError)"

definition num_truediv :: "pynum \<Rightarrow> nat \<Rightarrow> py_error + pynum" where
  "num_truediv s n =
     (if n = 0 then Inl ZeroDivisionError
      else finite_or_overflow (round_double (num_val s / of_nat n)))"

fun num_round2 :: "pynum \<Rightarrow> py_error + pynum" where
  "num_round2 (PyInt i) = Inr (PyInt i)"
| "num_round2 (PyFloat x) =
     finite_or_overflow (round_double (of_int (round_half_even (x * 100)) / 100))"

definition int_arith :: "(int, pynum) arith" where
  "int_arith =
     \<lparr>entry_0 = 0, average_0 = PyInt 0,
      py_sum = (\<lambda>vs. Inr (PyInt (sum_list vs))),
      py_truediv = num_truediv,
      py_round2 = num_round2\<rparr>"


text \<open>Lines 131 to 136: the average of one column.\<close>

definition column_average :: "('v, 'n) arith \<Rightarrow> 'v list \<Rightarrow> py_error + 'n" where
  "column_average ar kpi_values =
     (if kpi_values \<noteq> []
      then err_bind (py_sum ar kpi_values) (\<lambda>s.
           err_bind (py_truediv ar s (length kpi_values)) (\<lambda>avg.
             py_round2 ar avg))
      else Inr (average_0 ar))"







section \<open>Dashboard: the Key Insights section\<close>

text \<open>The key of lines 165 and 171: \<^verbatim>\<open>values_data[x].get(kpi, 0)\<close>\<close>

definition insight_key :: "value_matrix \<Rightarrow> string \<Rightarrow> string \<Rightarrow> py_error + rat" where
  "insight_key values_data kpi x =
     (case map_of values_data x of
        None \<Rightarrow> Inl KeyError
      | Some row \<Rightarrow> Inr (num_val (dict_get row kpi (PyInt 0))))"

text \<open>
  \<^verbatim>\<open>max(iterable, key=...)\<close> and \<^verbatim>\<open>min(iterable, key=...)\<close>: the key is computed for
  each item in order, and an item replaces the best so far only when its key is
  strictly greater (for \<open>max\<close>) or strictly less (for \<open>min\<close>), so the first extremal item
  wins. \<open>better new best\<close> is that strict comparison. An empty iterable raises
  \<^verbatim>\<open>ValueError\<close>.
\<close>

fun extremum_loop ::
  "(rat \<Rightarrow> rat \<Rightarrow> bool) \<Rightarrow> ('a \<Rightarrow> py_error + rat) \<Rightarrow> 'a \<Rightarrow> rat \<Rightarrow> 'a list \<Rightarrow> py_error + 'a"
where
  "extremum_loop better key best bk [] = Inr best"
| "extremum_loop better key best bk (x # xs) =
     (case key x of
        Inl e \<Rightarrow> Inl e
      | Inr k \<Rightarrow>
          if better k bk then extremum_loop better key x k xs
          else extremum_loop better key best bk xs)"

definition py_extremum ::
  "(rat \<Rightarrow> rat \<Rightarrow> bool) \<Rightarrow> ('a \<Rightarrow> py_error + rat) \<Rightarrow> 'a list \<Rightarrow> py_error + 'a"
where
  "py_extremum better key xs =
     (case xs of
        [] \<Rightarrow> Inl ValueError
      | x # rest \<Rightarrow> (case key x of Inl e \<Rightarrow> Inl e | Inr k \<Rightarrow> extremum_loop better key x k rest))"

definition py_max :: "('a \<Rightarrow> py_error + rat) \<Rightarrow> 'a list \<Rightarrow> py_error + 'a" where
  "py_max key xs = py_extremum (\<lambda>k bk. bk < k) key xs"

definition py_min :: "('a \<Rightarrow> py_error + rat) \<Rightarrow> 'a list \<Rightarrow> py_error + 'a" where
  "py_min key xs = py_extremum (\<lambda>k bk. k < bk) key xs"

text \<open>\<^verbatim>\<open>values_data[car][kpi]\<close>, the value the line displays.\<close>

definition displayed_value :: "value_matrix \<Rightarrow> string \<Rightarrow> string \<Rightarrow> py_error + pynum" where
  "displayed_value values_data car kpi =
     (case map_of values_data car of
        None \<Rightarrow> Inl KeyError
      | Some row \<Rightarrow> (case map_of row kpi of None \<Rightarrow> Inl KeyError | Some v \<Rightarrow> Inr v))"

text \<open>\<^verbatim>\<open>kpi in values_data[car]\<close> for a car of the matrix, the test of lines 70 and 85:
  the car has an entry for the KPI.\<close>

definition has_entry :: "value_matrix \<Rightarrow> string \<Rightarrow> string \<Rightarrow> bool" where
  "has_entry values_data car kpi =
     (case map_of values_data car of None \<Rightarrow> False | Some row \<Rightarrow> kpi \<in> set (map fst row))"

text \<open>Lines 165 and 166, and lines 171 and 172: one bullet, as (KPI, car, value).\<close>

definition top_performer ::
  "value_matrix \<Rightarrow> string list \<Rightarrow> string \<Rightarrow> py_error + (string \<times> string \<times> pynum)"
where
  "top_performer values_data cars kpi =
     err_bind (py_max (insight_key values_data kpi) cars) (\<lambda>top_car.
     err_bind (displayed_value values_data top_car kpi) (\<lambda>v. Inr (kpi, top_car, v)))"

definition bottom_performer ::
  "value_matrix \<Rightarrow> string list \<Rightarrow> string \<Rightarrow> py_error + (string \<times> string \<times> pynum)"
where
  "bottom_performer values_data cars kpi =
     err_bind (py_min (insight_key values_data kpi) cars) (\<lambda>bottom_car.
     err_bind (displayed_value values_data bottom_car kpi) (\<lambda>v. Inr (kpi, bottom_car, v)))"

text \<open>A \<^verbatim>\<open>for\<close> loop whose body may raise: it stops at the first exception.\<close>

fun for_each :: "('a \<Rightarrow> py_error + 'b) \<Rightarrow> 'a list \<Rightarrow> py_error + 'b list" where
  "for_each body [] = Inr []"
| "for_each body (x # xs) =
     err_bind (body x) (\<lambda>y. err_bind (for_each body xs) (\<lambda>ys. Inr (y # ys)))"

text \<open>Lines 162 to 172: the first column, then the second, each over \<^verbatim>\<open>kpis[:3]\<close>.\<close>

definition key_insights ::
  "value_matrix \<Rightarrow> string list \<Rightarrow> string list \<Rightarrow>
     py_error + ((string \<times> string \<times> pynum) list \<times> (string \<times> string \<times> pynum) list)"
where
  "key_insights values_data cars kpis =
     err_bind (for_each (top_performer values_data cars) (take 3 kpis)) (\<lambda>col1.
     err_bind (for_each (bottom_performer values_data cars) (take 3 kpis)) (\<lambda>col2.
       Inr (col1, col2)))"

section \<open>Example inputs\<close>

text \<open>A small catalog and value matrices for it: in \<open>ex_values\<close> every car has an entry
  and the Tesla lacks the horsepower; \<open>ex_values_short\<close> has no entry for the Ford.\<close>

definition ex_kpis :: "string list" where
  "ex_kpis = [''Horsepower'', ''Range (miles)'']"

definition ex_cars :: "string list" where
  "ex_cars = [''Toyota Camry LE'', ''Tesla Model 3 Long Range'', ''Ford F-150 XLT'']"

definition ex_catalog :: kpi_catalog where
  "ex_catalog = [(''top_cars_US_2024'', CatList ex_cars), (''top_5_KPIs'', CatList ex_kpis)]"

definition ex_values_short :: value_matrix where
  "ex_values_short =
     [(''Toyota Camry LE'', [(''Horsepower'', PyInt 203), (''Range (miles)'', PyInt 500)]),
      (''Tesla Model 3 Long Range'', [(''Range (miles)'', PyInt 341)])]"

definition ex_values :: value_matrix where
  "ex_values =
     ex_values_short @ [(''Ford F-150 XLT'', [(''Horsepower'', PyInt 400), (''Range (miles)'', PyInt 300)])]"

text \<open>The same matrices with int entries, as the exporter's arithmetic on ints reads
  them.\<close>

definition ex_ints_short :: "int car_values" where
  "ex_ints_short =
     [(''Toyota Camry LE'', [(''Horsepower'', 203), (''Range (miles)'', 500)]),
      (''Tesla Model 3 Long Range'', [(''Range (miles)'', 341)])]"

definition ex_ints :: "int car_values" where
  "ex_ints =
     ex_ints_short @ [(''Ford F-150 XLT'', [(''Horsepower'', 400), (''Range (miles)'', 300)])]"

text \<open>Two value matrices that differ in the \<^verbatim>\<open>Average\<close> entry only, for a car list that
  declares a car of that name.\<close>

definition ex_cars_avg :: "string list" where
  "ex_cars_avg = [''Toyota Camry LE'', ''Average'']"

definition ex_ints_avg :: "int \<Rightarrow> int car_values" where
  "ex_ints_avg n =
     [(''Toyota Camry LE'', [(''Horsepower'', 200)]),
      (''Average'', [(''Horsepower'', n)])]"

text \<open>Twenty car names, and the same list with the last name replaced by \<^verbatim>\<open>Average\<close>.\<close>

definition ex_cars19 :: "string list" where
  "ex_cars19 =
     [''Toyota Camry LE'', ''Honda Civic LX'', ''Ford F-150 XLT'', ''Chevrolet Silverado LT'',
      ''Toyota RAV4 XLE'', ''Honda CR-V EX'', ''Nissan Rogue SV'', ''Jeep Wrangler Sport'',
      ''Ram 1500 Big Horn'', ''Subaru Outback Premium'', ''Tesla Model 3 Long Range'',
      ''Tesla Model Y Long Range'', ''Ford Mustang Mach-E Select'', ''Chevrolet Bolt EV 1LT'',
      ''Hyundai Ioniq 5 SE'', ''Kia EV6 Light'', ''Rivian R1T Adventure'',
      ''Nissan Leaf SV Plus'', ''Volkswagen ID.4 Pro'']"

definition ex_cars20 :: "string list" where
  "ex_cars20 = ex_cars19 @ [''BMW i4 eDrive40'']"

definition ex_cars20_avg :: "string list" where
  "ex_cars20_avg = ex_cars19 @ [''Average'']"

text \<open>A matrix as step 2 fills it: every car of the list has a value for every KPI.\<close>

definition filled_matrix :: "string list \<Rightarrow> string list \<Rightarrow> (string \<Rightarrow> string \<Rightarrow> pynum) \<Rightarrow> matrix" where
  "filled_matrix cars kpis val =
     map (\<lambda>car. (car, map (\<lambda>kpi. (kpi, Some (val car kpi))) kpis)) cars"

definition ex_val :: "string \<Rightarrow> string \<Rightarrow> pynum" where
  "ex_val car kpi = PyInt (int (length car) * 10)"

text \<open>An API reply with one choice whose message content is the given text, and the
  text of some names, one per line.\<close>

definition api_reply :: "string \<Rightarrow> json" where
  "api_reply content =
     JObj [(''choices'', JArr [JObj [(''message'', JObj [(''content'', JStr content)])]])]"

fun join_lines :: "string list \<Rightarrow> string" where
  "join_lines [] = []"
| "join_lines [l] = l"
| "join_lines (l # ls) = l @ CHR 0x0A # join_lines ls"

text \<open>An API that answers every prompt with the given names, one per line; a world
  whose catalog file holds the given document and in which no prompt has been sent;
  five KPIs of the pool.\<close>

definition ex_api :: "string list \<Rightarrow> string \<Rightarrow> json option" where
  "ex_api names prompt = Some (api_reply (join_lines names))"

definition ex_world :: "json \<Rightarrow> world" where
  "ex_world doc = \<lparr>catalog_file = Parsed doc, api_log = []\<rparr>"

definition ex_kpis5 :: "string list" where
  "ex_kpis5 =
     [''Range (miles)'', ''Horsepower'', ''Cost Over Ownership'', ''Passenger Capacity'',
      ''Fuel Efficiency (MPG)'']"

text \<open>A catalog file with twenty cars and no KPI list.\<close>

definition ex_no_kpis :: json where
  "ex_no_kpis = JObj [(''top_cars_US_2024'', JArr (map JStr ex_cars20))]"

section \<open>Proofs: \<^verbatim>\<open>extract_value\<close>\<close>

lemma floor_rat_numeral_div:
  "\<lfloor>(numeral a / numeral b :: rat)\<rfloor> = numeral a div numeral b"
  using floor_divide_of_int_eq [of "numeral a" "numeral b", where ?'a = rat] by simp

lemmas double_eval = round_double_def nearest_double_def scale_down.simps scale_up.simps
  round_half_even_def Let_def floor_rat_numeral_div

lemma filter_dropWhile_disjoint:
  "(\<And>c. P c \<Longrightarrow> \<not> Q c) \<Longrightarrow> filter P (dropWhile Q xs) = filter P xs"
  by (induction xs) auto

lemma numeric_char_not_space: "numeric_char c \<Longrightarrow> \<not> is_space c"
  by (auto simp: numeric_char_def is_digit_def is_space_def)

lemma filter_numeric_dropWhile:
  "filter numeric_char (dropWhile is_space xs) = filter numeric_char xs"
  by (rule filter_dropWhile_disjoint) (rule numeric_char_not_space)

lemma residue_strip: "filter numeric_char (py_strip s) = numeric_residue s"
proof -
  have "filter numeric_char (py_strip s)
        = rev (filter numeric_char (dropWhile is_space (rev (dropWhile is_space s))))"
    unfolding py_strip_def by (simp only: rev_filter)
  also have "\<dots> = rev (filter numeric_char (rev (dropWhile is_space s)))"
    by (simp only: filter_numeric_dropWhile)
  also have "\<dots> = filter numeric_char (dropWhile is_space s)"
    by (simp only: rev_filter rev_rev_ident)
  also have "\<dots> = numeric_residue s"
    by (simp only: numeric_residue_def filter_numeric_dropWhile)
  finally show ?thesis .
qed

lemma py_float_Nil: "py_float [] = None"
  by (simp add: py_float_def decimal_value_def)

lemma extract_value_residue:
  "extract_value content =
     (case py_float (numeric_residue content) of
        None \<Rightarrow> IntVal 0
      | Some parsed \<Rightarrow> int_if_whole (if gt_1000 parsed then div_1000 parsed else parsed))"
proof -
  have eq: "(\<lambda>c. is_digit c \<or> c = CHR ''.'') = numeric_char"
    by (simp add: fun_eq_iff numeric_char_def)
  show ?thesis
    by (cases "numeric_residue content = []")
       (simp_all add: extract_value_def Let_def eq residue_strip py_float_Nil)
qed

lemma val_of_int_if_whole: "val_of (int_if_whole f) = f"
  by (cases f) (simp_all add: is_integer_def)

lemma two_points_no_float:
  assumes "2 \<le> length (filter (\<lambda>c. c = CHR ''.'') s)"
  shows "py_float s = None"
proof -
  let ?dot = "\<lambda>c. c = CHR ''.''"
  let ?ip = "takeWhile (\<lambda>c. c \<noteq> CHR ''.'') s"
  let ?rest = "dropWhile (\<lambda>c. c \<noteq> CHR ''.'') s"
  have ip0: "filter ?dot ?ip = []"
    by (auto simp: filter_empty_conv dest: set_takeWhileD)
  have "filter ?dot s = filter ?dot (?ip @ ?rest)" by simp
  also have "\<dots> = filter ?dot ?rest" by (simp only: filter_append ip0 append_Nil)
  finally have r2: "2 \<le> length (filter ?dot ?rest)" using assms by simp
  show ?thesis
  proof (cases ?rest)
    case Nil
    with r2 show ?thesis by simp
  next
    case (Cons x fp)
    with r2 have "filter ?dot fp \<noteq> []" by (auto split: if_splits)
    then have "CHR ''.'' \<in> set fp" by (auto simp: filter_empty_conv)
    moreover have "\<not> is_digit (CHR ''.'')" by (simp add: is_digit_def)
    ultimately have "\<not> list_all is_digit fp"
      unfolding list_all_iff by blast
    with Cons show ?thesis by (simp add: py_float_def decimal_value_def Let_def)
  qed
qed

lemma no_numeric_char_residue:
  "(\<forall>c \<in> set content. \<not> is_digit c \<and> c \<noteq> CHR ''.'') \<Longrightarrow> numeric_residue content = []"
  by (simp add: numeric_residue_def numeric_char_def filter_empty_conv)

lemma count_points_residue:
  "length (filter (\<lambda>c. c = CHR ''.'') (numeric_residue content)) = length (filter (\<lambda>c. c = CHR ''.'') content)"
proof -
  have "filter (\<lambda>c. c = CHR ''.'') (numeric_residue content) = filter (\<lambda>c. c = CHR ''.'') content"
    unfolding numeric_residue_def filter_filter
    by (rule filter_cong) (auto simp: numeric_char_def)
  then show ?thesis by simp
qed

lemmas decimal_eval =
  numeric_residue_def numeric_char_def is_digit_def decimal_value_def digits_val_def Let_def

text \<open>The residues of the examples below, and the doubles they parse to.\<close>

lemma decimal_value_examples:
  "decimal_value (numeric_residue ''14.5 mpg'') = Some (29 / 2)"
  "decimal_value (numeric_residue ''about 300 miles'') = Some 300"
  "decimal_value (numeric_residue ''1000.0000000000000001'') = Some (1000 + 1 / 10 ^ 16)"
  "decimal_value (numeric_residue ''25000'') = Some 25000"
  "decimal_value (numeric_residue ''$1,234.50'') = Some (2469 / 2)"
  "decimal_value (numeric_residue ''etc.'') = None"
  by (simp_all add: decimal_eval)

lemma round_double_examples:
  "round_double (29 / 2) = Finite (29 / 2)"
  "round_double 300 = Finite 300"
  "round_double (1000 + 1 / 10 ^ 16) = Finite 1000"
  "round_double 25000 = Finite 25000"
  "round_double (25000 / 1000) = Finite 25"
  "round_double (2469 / 2) = Finite (2469 / 2)"
  "round_double (2469 / 2 / 1000) = Finite (5559693739988877 / 4503599627370496)"
  by (simp_all add: double_eval)

lemma py_float_examples:
  "py_float (numeric_residue ''14.5 mpg'') = Some (Finite (29 / 2))"
  "py_float (numeric_residue ''about 300 miles'') = Some (Finite 300)"
  "py_float (numeric_residue ''1000.0000000000000001'') = Some (Finite 1000)"
  "py_float (numeric_residue ''25000'') = Some (Finite 25000)"
  "py_float (numeric_residue ''$1,234.50'') = Some (Finite (2469 / 2))"
  "py_float (numeric_residue ''etc.'') = None"
  by (simp_all only: py_float_def decimal_value_examples round_double_examples option.map)

lemma scale_down_unit:
  "scale_down y u e = (y', u') \<Longrightarrow> 0 \<le> e \<Longrightarrow> e \<le> 972 \<Longrightarrow> u = 2 ^ nat e
   \<Longrightarrow> y' * u' = y * u \<and> (\<exists>k \<le> 972. u' = 2 ^ k)"
proof (induction y u e rule: scale_down.induct)
  case (1 y u e)
  show ?case
  proof (cases "2 ^ 53 \<le> y \<and> e < 972")
    case True
    with "1.prems"(1) have s: "scale_down (y / 2) (u * 2) (e + 1) = (y', u')"
      by (simp add: scale_down.simps [of y u e])
    from "1.prems" True have u2: "u * 2 = 2 ^ nat (e + 1)"
      by (simp add: nat_add_distrib)
    from "1.IH" [OF True s _ _ u2] "1.prems" True
    have "y' * u' = y / 2 * (u * 2) \<and> (\<exists>k \<le> 972. u' = 2 ^ k)" by simp
    then show ?thesis by simp
  next
    case False
    with "1.prems"(1) have "y' = y" "u' = u"
      by (auto simp: scale_down.simps [of y u e] split: if_splits)
    with "1.prems" show ?thesis by (auto intro!: exI [of _ "nat e"])
  qed
qed

lemma floor_le_round_half_even: "\<lfloor>x\<rfloor> \<le> round_half_even x"
  by (simp add: round_half_even_def Let_def)

lemma nearest_double_overflow:
  assumes "2 ^ 1024 \<le> x"
  shows "2 ^ 1024 \<le> nearest_double x"
proof -
  have "(2 :: rat) ^ 53 \<le> 2 ^ 1024" by (rule power_increasing) simp_all
  from this assms have big: "2 ^ 53 \<le> x" by (rule order_trans)
  have "(0 :: rat) < 2 ^ 1024" by simp
  from this assms have pos: "0 < x" by (rule less_le_trans)
  obtain y u where s: "scale_down x 1 0 = (y, u)" by (cases "scale_down x 1 0")
  from scale_down_unit [OF s] obtain k where yu: "y * u = x" and k: "k \<le> 972" and u: "u = 2 ^ k"
    by auto
  have split: "(2 :: rat) ^ 1024 = 2 ^ (1024 - k) * 2 ^ k"
    using k by (simp flip: power_add)
  from yu u assms have "2 ^ (1024 - k) * 2 ^ k \<le> y * (2 :: rat) ^ k"
    by (simp only: split)
  then have "(2 :: rat) ^ (1024 - k) \<le> y" by simp
  then have "of_int (2 ^ (1024 - k)) \<le> y" by simp
  then have "2 ^ (1024 - k) \<le> \<lfloor>y\<rfloor>" by (simp only: le_floor_iff)
  also have "\<dots> \<le> round_half_even y" by (rule floor_le_round_half_even)
  finally have "(of_int (2 ^ (1024 - k)) :: rat) \<le> of_int (round_half_even y)"
    by (simp only: of_int_le_iff)
  then have "(2 :: rat) ^ (1024 - k) * 2 ^ k \<le> of_int (round_half_even y) * 2 ^ k"
    by simp
  then have "2 ^ 1024 \<le> of_int (round_half_even y) * u"
    by (simp only: split u)
  with big pos s show ?thesis by (simp add: nearest_double_def)
qed

lemma round_double_overflow: "2 ^ 1024 \<le> x \<Longrightarrow> round_double x = PosInf"
proof -
  assume a: "2 ^ 1024 \<le> x"
  have "(0 :: rat) < 2 ^ 1024" by simp
  from this a have pos: "0 < x" by (rule less_le_trans)
  then have "\<bar>x\<bar> = x" by simp
  with nearest_double_overflow [OF a] pos show ?thesis
    by (simp add: round_double_def Let_def)
qed

text \<open>A string whose digits denote a number of \<open>2 ^ 1024\<close> or more parses as \<^verbatim>\<open>inf\<close>; a
  content with such a residue passes the test, stays \<^verbatim>\<open>inf\<close> in the division and is
  returned as a float.\<close>

lemma py_float_overflow:
  "decimal_value s = Some v \<Longrightarrow> 2 ^ 1024 \<le> v \<Longrightarrow> py_float s = Some PosInf"
  by (simp add: py_float_def round_double_overflow)

lemma extract_value_overflow:
  assumes "decimal_value (numeric_residue content) = Some v" and "2 ^ 1024 \<le> v"
  shows "extract_value content = FloatVal PosInf"
proof -
  from assms have "py_float (numeric_residue content) = Some PosInf"
    by (rule py_float_overflow)
  then show ?thesis by (simp add: extract_value_residue)
qed

lemma digits_val_snoc: "digits_val (ds @ [c]) = 10 * digits_val ds + (of_char c - 48)"
  by (simp add: digits_val_def)

lemma digits_val_nines: "digits_val (replicate n (CHR ''9'')) = 10 ^ n - 1"
proof (induction n)
  case 0
  show ?case by (simp add: digits_val_def)
next
  case (Suc n)
  have "replicate (Suc n) (CHR ''9'') = replicate n (CHR ''9'') @ [CHR ''9'']"
    by (simp only: replicate_append_same replicate.simps)
  then have "digits_val (replicate (Suc n) (CHR ''9'')) = 10 * (10 ^ n - 1) + 9"
    by (simp add: digits_val_snoc Suc.IH)
  also have "\<dots> = 10 ^ Suc n - 1"
  proof -
    have "(1 :: nat) \<le> 10 ^ n" by simp
    then show ?thesis by (simp add: algebra_simps)
  qed
  finally show ?case .
qed

lemma py_float_nines: "py_float (numeric_residue (replicate 310 (CHR ''9''))) = Some PosInf"
proof -
  let ?s = "replicate 310 (CHR ''9'')"
  have r: "numeric_residue ?s = ?s"
    by (simp add: numeric_residue_def numeric_char_def is_digit_def)
  have t: "takeWhile (\<lambda>c. c \<noteq> CHR ''.'') ?s = ?s" by (simp add: takeWhile_eq_all_conv)
  have d: "dropWhile (\<lambda>c. c \<noteq> CHR ''.'') ?s = []" by (simp add: dropWhile_eq_Nil_conv)
  have a: "list_all is_digit ?s" by (simp add: list_all_iff is_digit_def)
  have n: "?s \<noteq> []" by simp
  have v: "decimal_value (numeric_residue ?s) = Some (of_nat (10 ^ 310 - 1))"
    unfolding r decimal_value_def Let_def t d using a n
    by (simp only: digits_val_nines if_True if_False not_True_eq_False simp_thms)
  have big: "(2 :: rat) ^ 1024 \<le> of_nat (10 ^ 310 - 1)"
    by simp
  from v big show ?thesis by (rule py_float_overflow)
qed

text \<open>
  Claim C1. When the residue of digits and points of the content parses as a float
  \<open>v\<close> with \<open>v \<le> 1000\<close>, \<open>extract_value\<close> returns \<open>v\<close> unchanged: the int \<open>\<lfloor>v\<rfloor>\<close> when
  \<open>v\<close> is whole, the float \<open>v\<close> otherwise.
\<close>

theorem extract_value_at_most_1000:
  assumes "py_float (numeric_residue content) = Some (Finite v)" and "v \<le> 1000"
  shows "extract_value content = (if is_integer v then IntVal \<lfloor>v\<rfloor> else FloatVal (Finite v))
         \<and> val_of (extract_value content) = Finite v"
proof -
  from assms have e: "extract_value content = int_if_whole (Finite v)"
    by (simp add: extract_value_residue)
  have "val_of (extract_value content) = Finite v"
    unfolding e by (rule val_of_int_if_whole)
  with e show ?thesis by (simp only: int_if_whole.simps simp_thms)
qed

text \<open>The contents \<^verbatim>\<open>14.5 mpg\<close> (yields the float 14.5), \<^verbatim>\<open>about 300 miles\<close> (yields the
  int 300) and \<^verbatim>\<open>1000.0000000000000001\<close> (parses as the double 1000.0 and yields the int
  1000).\<close>

theorem extract_value_at_most_1000_witness:
  "py_float (numeric_residue ''14.5 mpg'') = Some (Finite (29 / 2)) \<and> (29 / 2 :: rat) \<le> 1000
   \<and> extract_value ''14.5 mpg'' = FloatVal (Finite (29 / 2))
   \<and> py_float (numeric_residue ''about 300 miles'') = Some (Finite 300) \<and> (300 :: rat) \<le> 1000
   \<and> extract_value ''about 300 miles'' = IntVal 300
   \<and> py_float (numeric_residue ''1000.0000000000000001'') = Some (Finite 1000)
   \<and> extract_value ''1000.0000000000000001'' = IntVal 1000"
proof -
  note h1 = py_float_examples(1)
  have h2: "(29 / 2 :: rat) \<le> 1000" by simp
  have ni: "is_integer (29 / 2) = False"
    by (simp add: is_integer_def floor_rat_numeral_div)
  note h3 = py_float_examples(2)
  have h4: "(300 :: rat) \<le> 1000" by simp
  have i2: "is_integer 300 = True" by (simp add: is_integer_def)
  have fl: "\<lfloor>300 :: rat\<rfloor> = 300" by simp
  note h5 = py_float_examples(3)
  have h6: "(1000 :: rat) \<le> 1000" by simp
  have i3: "is_integer 1000 = True" by (simp add: is_integer_def)
  have fl3: "\<lfloor>1000 :: rat\<rfloor> = 1000" by simp
  have c1: "extract_value ''14.5 mpg'' = FloatVal (Finite (29 / 2))"
    using extract_value_at_most_1000 [OF h1 h2] by (simp only: ni if_False)
  have c2: "extract_value ''about 300 miles'' = IntVal 300"
    using extract_value_at_most_1000 [OF h3 h4] by (simp only: i2 if_True fl)
  have c3: "extract_value ''1000.0000000000000001'' = IntVal 1000"
    using extract_value_at_most_1000 [OF h5 h6] by (simp only: i3 if_True fl3)
  from h1 h2 c1 h3 h4 c2 h5 c3 show ?thesis by (intro conjI)
qed

text \<open>
  Claim C2. When the residue parses as a float \<open>f\<close> greater than 1000, \<open>extract_value\<close>
  returns the quotient of the float division of \<open>f\<close> by 1000, which is the double nearest
  to the exact quotient and \<^verbatim>\<open>inf\<close> for \<^verbatim>\<open>inf\<close>: as an int when the quotient is
  whole, as a float otherwise.
\<close>

theorem extract_value_above_1000:
  assumes "py_float (numeric_residue content) = Some f" and "gt_1000 f"
  shows "extract_value content = int_if_whole (div_1000 f)
         \<and> val_of (extract_value content) = div_1000 f
         \<and> (\<forall>v. f = Finite v \<longrightarrow> val_of (extract_value content) = round_double (v / 1000))"
proof -
  from assms have "extract_value content = int_if_whole (div_1000 f)"
    by (simp add: extract_value_residue)
  then show ?thesis by (simp add: val_of_int_if_whole)
qed

text \<open>The contents \<^verbatim>\<open>25000\<close> (yields the int 25), \<^verbatim>\<open>$1,234.50\<close> (yields the double
  nearest to 1.2345, which Python prints as \<^verbatim>\<open>1.2345\<close>) and a content of 310 digits 9
  (parses as \<^verbatim>\<open>inf\<close> and yields the float \<^verbatim>\<open>inf\<close>).\<close>

theorem extract_value_above_1000_witness:
  "py_float (numeric_residue ''25000'') = Some (Finite 25000) \<and> gt_1000 (Finite 25000)
   \<and> extract_value ''25000'' = IntVal 25
   \<and> py_float (numeric_residue ''$1,234.50'') = Some (Finite (2469 / 2))
   \<and> gt_1000 (Finite (2469 / 2))
   \<and> extract_value ''$1,234.50'' = FloatVal (Finite (5559693739988877 / 4503599627370496))
   \<and> py_float (numeric_residue (replicate 310 (CHR ''9''))) = Some PosInf \<and> gt_1000 PosInf
   \<and> extract_value (replicate 310 (CHR ''9'')) = FloatVal PosInf"
proof -
  note h5 = py_float_nines
  have h6: "gt_1000 PosInf" by simp
  have c3: "extract_value (replicate 310 (CHR ''9'')) = FloatVal PosInf"
    using extract_value_above_1000 [OF h5 h6, THEN conjunct1]
    by (simp only: div_1000.simps int_if_whole.simps)
  note h1 = py_float_examples(4)
  have h2: "gt_1000 (Finite 25000)" by simp
  have d1: "div_1000 (Finite 25000) = Finite 25"
    by (simp only: div_1000.simps round_double_examples)
  have i1: "is_integer 25 = True" by (simp add: is_integer_def)
  have fl: "\<lfloor>25 :: rat\<rfloor> = 25" by simp
  note h3 = py_float_examples(5)
  have h4: "gt_1000 (Finite (2469 / 2))" by simp
  have d2: "div_1000 (Finite (2469 / 2)) = Finite (5559693739988877 / 4503599627370496)"
    by (simp only: div_1000.simps round_double_examples)
  have ni: "is_integer (5559693739988877 / 4503599627370496) = False"
    by (simp add: is_integer_def floor_rat_numeral_div)
  have c1: "extract_value ''25000'' = IntVal 25"
    using extract_value_above_1000 [OF h1 h2, THEN conjunct1]
    by (simp only: d1 int_if_whole.simps i1 if_True fl)
  have c2: "extract_value ''$1,234.50'' = FloatVal (Finite (5559693739988877 / 4503599627370496))"
    using extract_value_above_1000 [OF h3 h4, THEN conjunct1]
    by (simp only: d2 int_if_whole.simps ni if_False)
  from h1 h2 c1 h3 h4 c2 h5 h6 c3 show ?thesis by (intro conjI)
qed

text \<open>
  Claim C3. \<open>extract_value\<close> returns the int 0 for a content with no digit and no
  decimal point, and for a content whose residue does not parse as a float; a residue
  with two or more decimal points is such a one.
\<close>

theorem extract_value_defaults_to_0:
  assumes "(\<forall>c \<in> set content. \<not> is_digit c \<and> c \<noteq> CHR ''.'')
           \<or> py_float (numeric_residue content) = None
           \<or> 2 \<le> length (filter (\<lambda>c. c = CHR ''.'') content)"
  shows "extract_value content = IntVal 0"
proof -
  have "py_float (numeric_residue content) = None"
    using assms
  proof (elim disjE)
    assume "\<forall>c \<in> set content. \<not> is_digit c \<and> c \<noteq> CHR ''.''"
    then have "numeric_residue content = []" by (rule no_numeric_char_residue)
    then show ?thesis by (simp add: py_float_Nil)
  next
    assume "py_float (numeric_residue content) = None"
    then show ?thesis .
  next
    assume "2 \<le> length (filter (\<lambda>c. c = CHR ''.'') content)"
    then have "2 \<le> length (filter (\<lambda>c. c = CHR ''.'') (numeric_residue content))"
      by (simp only: count_points_residue)
    then show ?thesis by (rule two_points_no_float)
  qed
  then show ?thesis by (simp add: extract_value_residue)
qed

text \<open>The contents \<^verbatim>\<open>N/A\<close>, \<^verbatim>\<open>v1.2.3\<close> and \<^verbatim>\<open>etc.\<close> (whose residue is a lone point).\<close>

theorem extract_value_defaults_to_0_witness:
  "extract_value ''N/A'' = IntVal 0
   \<and> 2 \<le> length (filter (\<lambda>c. c = CHR ''.'') ''v1.2.3'') \<and> extract_value ''v1.2.3'' = IntVal 0
   \<and> py_float (numeric_residue ''etc.'') = None \<and> extract_value ''etc.'' = IntVal 0"
proof -
  have h1: "\<forall>c \<in> set ''N/A''. \<not> is_digit c \<and> c \<noteq> CHR ''.''"
    by (simp add: is_digit_def)
  have h2: "2 \<le> length (filter (\<lambda>c. c = CHR ''.'') ''v1.2.3'')" by simp
  note h3 = py_float_examples(6)
  have c1: "extract_value ''N/A'' = IntVal 0"
    by (rule extract_value_defaults_to_0) (rule disjI1, rule h1)
  have c2: "extract_value ''v1.2.3'' = IntVal 0"
    by (rule extract_value_defaults_to_0) (rule disjI2, rule disjI2, rule h2)
  have c3: "extract_value ''etc.'' = IntVal 0"
    by (rule extract_value_defaults_to_0) (rule disjI2, rule disjI1, rule h3)
  from c1 h2 c2 h3 c3 show ?thesis by (intro conjI)
qed

text \<open>A cell of the matrix: no response gives 0, a reply of the expected shape gives the
  number extracted from its content.\<close>

lemma extract_content_no_response: "extract_content None = Inr (IntVal 0)"
  by (simp add: extract_content_def has_choices_def err_bind_def)

lemma extract_content_reply:
  "extract_content (Some (api_reply content)) = Inr (extract_value (py_strip content))"
  by (simp add: extract_content_def has_choices_def first_content_def api_reply_def err_bind_def)

section \<open>Proofs: the exporter\<close>














lemmas ex_defs = ex_kpis_def ex_cars_def ex_catalog_def ex_values_short_def ex_values_def
  ex_ints_short_def ex_ints_def ex_cars_avg_def ex_ints_avg_def

lemmas arith_eval = int_arith_def num_truediv_def num_round2.simps finite_or_overflow_def
  round_double_def nearest_double_def scale_down.simps scale_up.simps round_half_even_def
  Let_def floor_rat_numeral_div


text \<open>The arithmetic on ints at the average of 39 values 2 and one value 29: the quotient
  107 / 40 is the double just below 2.675, which \<^verbatim>\<open>round\<close> takes to the double nearest to
  2.67. The average of 200 and 100 is the float 150.0.\<close>

lemma int_arith_examples:
  "py_sum int_arith (replicate 39 2 @ [29]) = Inr (PyInt 107)"
  "py_truediv int_arith (PyInt 107) 40 = Inr (PyFloat (3011782250804019 / 1125899906842624))"
  "py_round2 int_arith (PyFloat (3011782250804019 / 1125899906842624))
     = Inr (PyFloat (1503076375634903 / 562949953421312))"
  "round_double (267 / 100) = Finite (1503076375634903 / 562949953421312)"
  "column_average int_arith [200, 100] = Inr (PyFloat 150)"
  by (simp_all add: column_average_def err_bind_def arith_eval eval_nat_numeral)










section \<open>Proofs: the dashboard\<close>

lemma extremum_loop_max:
  assumes "\<forall>x \<in> set xs. key x = Inr (f x)"
  shows "\<exists>c. extremum_loop (\<lambda>k bk. bk < k) key best (f best) xs = Inr c
           \<and> c \<in> set (best # xs) \<and> (\<forall>x \<in> set (best # xs). f x \<le> f c)"
  using assms
proof (induction xs arbitrary: best)
  case Nil
  then show ?case by simp
next
  case (Cons x xs)
  then have kx: "key x = Inr (f x)" and rest: "\<forall>y \<in> set xs. key y = Inr (f y)" by simp_all
  show ?case
  proof (cases "f best < f x")
    case True
    from Cons.IH [OF rest, of x] obtain c where
      c: "extremum_loop (\<lambda>k bk. bk < k) key x (f x) xs = Inr c" "c \<in> set (x # xs)"
         "\<forall>y \<in> set (x # xs). f y \<le> f c" by blast
    then have "f x \<le> f c" by simp
    with True have "f best \<le> f c" by simp
    with c True kx show ?thesis by simp
  next
    case False
    from Cons.IH [OF rest, of best] obtain c where
      c: "extremum_loop (\<lambda>k bk. bk < k) key best (f best) xs = Inr c" "c \<in> set (best # xs)"
         "\<forall>y \<in> set (best # xs). f y \<le> f c" by blast
    then have "f best \<le> f c" by simp
    with False have "f x \<le> f c" by simp
    with c False kx show ?thesis by auto
  qed
qed

lemma extremum_loop_min:
  assumes "\<forall>x \<in> set xs. key x = Inr (f x)"
  shows "\<exists>c. extremum_loop (\<lambda>k bk. k < bk) key best (f best) xs = Inr c
           \<and> c \<in> set (best # xs) \<and> (\<forall>x \<in> set (best # xs). f c \<le> f x)"
  using assms
proof (induction xs arbitrary: best)
  case Nil
  then show ?case by simp
next
  case (Cons x xs)
  then have kx: "key x = Inr (f x)" and rest: "\<forall>y \<in> set xs. key y = Inr (f y)" by simp_all
  show ?case
  proof (cases "f x < f best")
    case True
    from Cons.IH [OF rest, of x] obtain c where
      c: "extremum_loop (\<lambda>k bk. k < bk) key x (f x) xs = Inr c" "c \<in> set (x # xs)"
         "\<forall>y \<in> set (x # xs). f c \<le> f y" by blast
    then have "f c \<le> f x" by simp
    with True have "f c \<le> f best" by simp
    with c True kx show ?thesis by simp
  next
    case False
    from Cons.IH [OF rest, of best] obtain c where
      c: "extremum_loop (\<lambda>k bk. k < bk) key best (f best) xs = Inr c" "c \<in> set (best # xs)"
         "\<forall>y \<in> set (best # xs). f c \<le> f y" by blast
    then have "f c \<le> f best" by simp
    with False have "f c \<le> f x" by simp
    with c False kx show ?thesis by auto
  qed
qed

lemma py_max_argmax:
  assumes "xs \<noteq> []" and "\<forall>x \<in> set xs. key x = Inr (f x)"
  shows "\<exists>c. py_max key xs = Inr c \<and> c \<in> set xs \<and> (\<forall>x \<in> set xs. f x \<le> f c)"
proof -
  from assms(1) obtain y ys where xs: "xs = y # ys" by (cases xs) auto
  with assms(2) have "key y = Inr (f y)" and "\<forall>x \<in> set ys. key x = Inr (f x)" by simp_all
  with extremum_loop_max [of ys key f y] xs show ?thesis
    by (simp add: py_max_def py_extremum_def)
qed

lemma py_min_argmin:
  assumes "xs \<noteq> []" and "\<forall>x \<in> set xs. key x = Inr (f x)"
  shows "\<exists>c. py_min key xs = Inr c \<and> c \<in> set xs \<and> (\<forall>x \<in> set xs. f c \<le> f x)"
proof -
  from assms(1) obtain y ys where xs: "xs = y # ys" by (cases xs) auto
  with assms(2) have "key y = Inr (f y)" and "\<forall>x \<in> set ys. key x = Inr (f x)" by simp_all
  with extremum_loop_min [of ys key f y] xs show ?thesis
    by (simp add: py_min_def py_extremum_def)
qed

lemma insight_key_present:
  "map_of values_data x \<noteq> None
   \<Longrightarrow> insight_key values_data kpi x
        = Inr (num_val (dict_get (the (map_of values_data x)) kpi (PyInt 0)))"
  by (auto simp: insight_key_def)

lemma has_entry_map_of:
  "has_entry values_data car kpi
   \<longleftrightarrow> (\<exists>row v. map_of values_data car = Some row \<and> map_of row kpi = Some v)"
proof (cases "map_of values_data car")
  case None
  then show ?thesis by (simp add: has_entry_def)
next
  case (Some row)
  have "kpi \<in> fst ` set row \<longleftrightarrow> map_of row kpi \<noteq> None"
    by (simp add: map_of_eq_None_iff)
  with Some show ?thesis by (auto simp: has_entry_def)
qed

lemma displayed_value_iff:
  "(\<exists>v. displayed_value values_data car kpi = Inr v) \<longleftrightarrow> has_entry values_data car kpi"
  unfolding has_entry_map_of
  by (auto simp: displayed_value_def split: option.splits)

lemma displayed_value_error:
  "\<not> has_entry values_data car kpi \<Longrightarrow> displayed_value values_data car kpi = Inl KeyError"
  unfolding has_entry_map_of
  by (auto simp: displayed_value_def split: option.splits)

lemma for_each_ok_iff:
  "(\<exists>ys. for_each body xs = Inr ys) \<longleftrightarrow> (\<forall>x \<in> set xs. \<exists>y. body x = Inr y)"
proof (induction xs)
  case Nil
  show ?case by simp
next
  case (Cons x xs)
  show ?case
  proof (cases "body x")
    case (Inl e)
    then show ?thesis by (auto simp: err_bind_def)
  next
    case (Inr y)
    show ?thesis
    proof (cases "for_each body xs")
      case (Inl e)
      with Inr Cons show ?thesis by (auto simp: err_bind_def)
    next
      case Inr2: (Inr ys)
      with Inr Cons show ?thesis by (auto simp: err_bind_def)
    qed
  qed
qed

lemma key_insights_ok_iff:
  "(\<exists>r. key_insights values_data cars kpis = Inr r)
   \<longleftrightarrow> (\<forall>kpi \<in> set (take 3 kpis).
          (\<exists>r. top_performer values_data cars kpi = Inr r)
          \<and> (\<exists>r. bottom_performer values_data cars kpi = Inr r))"
proof -
  let ?t = "for_each (top_performer values_data cars) (take 3 kpis)"
  let ?b = "for_each (bottom_performer values_data cars) (take 3 kpis)"
  have "(\<exists>r. key_insights values_data cars kpis = Inr r)
        \<longleftrightarrow> (\<exists>c1. ?t = Inr c1) \<and> (\<exists>c2. ?b = Inr c2)"
    by (cases ?t; cases ?b) (simp_all add: key_insights_def err_bind_def)
  then show ?thesis unfolding for_each_ok_iff by blast
qed

text \<open>
  Claim C10. For a non-empty car list whose cars all have a row in the value matrix and
  for every KPI: \<open>max\<close> selects a car of the list whose key
  \<^verbatim>\<open>values_data[car].get(kpi, 0)\<close> is greatest (\<open>min\<close>: least), and the bullet, which
  reads \<^verbatim>\<open>values_data[car][kpi]\<close> of the selected car, is produced exactly when the
  selected car has an entry for the KPI; otherwise it raises \<^verbatim>\<open>KeyError\<close>. The whole
  section is produced exactly when both bullets are, for each of \<^verbatim>\<open>kpis[:3]\<close>.
\<close>

theorem key_insights_lookup_defined_iff_entry:
  assumes "cars \<noteq> []" and "\<forall>car \<in> set cars. map_of values_data car \<noteq> None"
  shows "(\<exists>top_car. py_max (insight_key values_data kpi) cars = Inr top_car \<and> top_car \<in> set cars
            \<and> (\<forall>x \<in> set cars. \<exists>k kt. insight_key values_data kpi x = Inr k
                   \<and> insight_key values_data kpi top_car = Inr kt \<and> k \<le> kt)
            \<and> ((\<exists>v. top_performer values_data cars kpi = Inr (kpi, top_car, v))
                 \<longleftrightarrow> has_entry values_data top_car kpi)
            \<and> (\<not> has_entry values_data top_car kpi
                 \<longrightarrow> top_performer values_data cars kpi = Inl KeyError))
       \<and> (\<exists>bottom_car. py_min (insight_key values_data kpi) cars = Inr bottom_car
            \<and> bottom_car \<in> set cars
            \<and> (\<forall>x \<in> set cars. \<exists>k kb. insight_key values_data kpi x = Inr k
                   \<and> insight_key values_data kpi bottom_car = Inr kb \<and> kb \<le> k)
            \<and> ((\<exists>v. bottom_performer values_data cars kpi = Inr (kpi, bottom_car, v))
                 \<longleftrightarrow> has_entry values_data bottom_car kpi)
            \<and> (\<not> has_entry values_data bottom_car kpi
                 \<longrightarrow> bottom_performer values_data cars kpi = Inl KeyError))
       \<and> ((\<exists>r. key_insights values_data cars kpis = Inr r)
            \<longleftrightarrow> (\<forall>kpi \<in> set (take 3 kpis).
                   (\<exists>r. top_performer values_data cars kpi = Inr r)
                   \<and> (\<exists>r. bottom_performer values_data cars kpi = Inr r)))"
proof (intro conjI)
  define f where "f = (\<lambda>x. num_val (dict_get (the (map_of values_data x)) kpi (PyInt 0)))"
  have keys: "\<forall>x \<in> set cars. insight_key values_data kpi x = Inr (f x)"
    using assms(2) by (simp add: f_def insight_key_present)
  show "\<exists>top_car. py_max (insight_key values_data kpi) cars = Inr top_car \<and> top_car \<in> set cars
            \<and> (\<forall>x \<in> set cars. \<exists>k kt. insight_key values_data kpi x = Inr k
                   \<and> insight_key values_data kpi top_car = Inr kt \<and> k \<le> kt)
            \<and> ((\<exists>v. top_performer values_data cars kpi = Inr (kpi, top_car, v))
                 \<longleftrightarrow> has_entry values_data top_car kpi)
            \<and> (\<not> has_entry values_data top_car kpi
                 \<longrightarrow> top_performer values_data cars kpi = Inl KeyError)"
  proof -
    from py_max_argmax [OF assms(1) keys] obtain c where
      c: "py_max (insight_key values_data kpi) cars = Inr c" "c \<in> set cars"
         "\<forall>x \<in> set cars. f x \<le> f c" by blast
    have tp: "top_performer values_data cars kpi
              = err_bind (displayed_value values_data c kpi) (\<lambda>v. Inr (kpi, c, v))"
      by (simp add: top_performer_def c(1) err_bind_def)
    have a: "\<forall>x \<in> set cars. \<exists>k kt. insight_key values_data kpi x = Inr k
                   \<and> insight_key values_data kpi c = Inr kt \<and> k \<le> kt"
      using keys c(2,3) by blast
    have b: "(\<exists>v. top_performer values_data cars kpi = Inr (kpi, c, v))
             \<longleftrightarrow> has_entry values_data c kpi"
      unfolding tp displayed_value_iff [symmetric]
      by (cases "displayed_value values_data c kpi") (simp_all add: err_bind_def)
    have d: "\<not> has_entry values_data c kpi
             \<longrightarrow> top_performer values_data cars kpi = Inl KeyError"
      unfolding tp by (auto simp: err_bind_def dest: displayed_value_error)
    from c(1,2) a b d show ?thesis by blast
  qed
  show "\<exists>bottom_car. py_min (insight_key values_data kpi) cars = Inr bottom_car
            \<and> bottom_car \<in> set cars
            \<and> (\<forall>x \<in> set cars. \<exists>k kb. insight_key values_data kpi x = Inr k
                   \<and> insight_key values_data kpi bottom_car = Inr kb \<and> kb \<le> k)
            \<and> ((\<exists>v. bottom_performer values_data cars kpi = Inr (kpi, bottom_car, v))
                 \<longleftrightarrow> has_entry values_data bottom_car kpi)
            \<and> (\<not> has_entry values_data bottom_car kpi
                 \<longrightarrow> bottom_performer values_data cars kpi = Inl KeyError)"
  proof -
    from py_min_argmin [OF assms(1) keys] obtain c where
      c: "py_min (insight_key values_data kpi) cars = Inr c" "c \<in> set cars"
         "\<forall>x \<in> set cars. f c \<le> f x" by blast
    have tp: "bottom_performer values_data cars kpi
              = err_bind (displayed_value values_data c kpi) (\<lambda>v. Inr (kpi, c, v))"
      by (simp add: bottom_performer_def c(1) err_bind_def)
    have a: "\<forall>x \<in> set cars. \<exists>k kb. insight_key values_data kpi x = Inr k
                   \<and> insight_key values_data kpi c = Inr kb \<and> kb \<le> k"
      using keys c(2,3) by blast
    have b: "(\<exists>v. bottom_performer values_data cars kpi = Inr (kpi, c, v))
             \<longleftrightarrow> has_entry values_data c kpi"
      unfolding tp displayed_value_iff [symmetric]
      by (cases "displayed_value values_data c kpi") (simp_all add: err_bind_def)
    have d: "\<not> has_entry values_data c kpi
             \<longrightarrow> bottom_performer values_data cars kpi = Inl KeyError"
      unfolding tp by (auto simp: err_bind_def dest: displayed_value_error)
    from c(1,2) a b d show ?thesis by blast
  qed
  show "(\<exists>r. key_insights values_data cars kpis = Inr r)
            \<longleftrightarrow> (\<forall>kpi \<in> set (take 3 kpis).
                   (\<exists>r. top_performer values_data cars kpi = Inr r)
                   \<and> (\<exists>r. bottom_performer values_data cars kpi = Inr r))"
    by (rule key_insights_ok_iff)
qed

text \<open>The example matrix, which the exporter's validation accepts with a warning: for
  the horsepower the top performer is the Ford, whose entry exists, and the bullet is
  produced; the bottom performer is the Tesla, whose missing entry counts as 0 in the
  comparison, and the bullet raises \<^verbatim>\<open>KeyError\<close>.\<close>

theorem key_insights_lookup_defined_iff_entry_witness:
  "ex_cars \<noteq> []
   \<and> py_max (insight_key ex_values ''Horsepower'') ex_cars = Inr ''Ford F-150 XLT''
   \<and> has_entry ex_values ''Ford F-150 XLT'' ''Horsepower''
   \<and> (\<exists>v. top_performer ex_values ex_cars ''Horsepower''
            = Inr (''Horsepower'', ''Ford F-150 XLT'', v))
   \<and> py_min (insight_key ex_values ''Horsepower'') ex_cars = Inr ''Tesla Model 3 Long Range''
   \<and> \<not> has_entry ex_values ''Tesla Model 3 Long Range'' ''Horsepower''
   \<and> bottom_performer ex_values ex_cars ''Horsepower'' = Inl KeyError"
proof -
  have ne: "ex_cars \<noteq> []" by (simp add: ex_cars_def)
  have rows: "\<forall>car \<in> set ex_cars. map_of ex_values car \<noteq> None"
    by (simp add: ex_defs)
  have mx: "py_max (insight_key ex_values ''Horsepower'') ex_cars = Inr ''Ford F-150 XLT''"
    by (simp add: py_max_def py_extremum_def insight_key_def dict_get_def ex_defs)
  have mn: "py_min (insight_key ex_values ''Horsepower'') ex_cars = Inr ''Tesla Model 3 Long Range''"
    by (simp add: py_min_def py_extremum_def insight_key_def dict_get_def ex_defs)
  have e1: "has_entry ex_values ''Ford F-150 XLT'' ''Horsepower''"
    by (simp add: has_entry_def ex_defs)
  have e2: "\<not> has_entry ex_values ''Tesla Model 3 Long Range'' ''Horsepower''"
    by (simp add: has_entry_def ex_defs)
  note T = key_insights_lookup_defined_iff_entry [OF ne rows, of "''Horsepower''"]
  from T [THEN conjunct1] obtain top_car where
    t: "py_max (insight_key ex_values ''Horsepower'') ex_cars = Inr top_car"
       "(\<exists>v. top_performer ex_values ex_cars ''Horsepower'' = Inr (''Horsepower'', top_car, v))
        \<longleftrightarrow> has_entry ex_values top_car ''Horsepower''"
    by blast
  from t(1) mx have "top_car = ''Ford F-150 XLT''" by simp
  with t(2) e1 have r1: "\<exists>v. top_performer ex_values ex_cars ''Horsepower''
            = Inr (''Horsepower'', ''Ford F-150 XLT'', v)" by simp
  from T [THEN conjunct2, THEN conjunct1] obtain bottom_car where
    b: "py_min (insight_key ex_values ''Horsepower'') ex_cars = Inr bottom_car"
       "\<not> has_entry ex_values bottom_car ''Horsepower''
        \<longrightarrow> bottom_performer ex_values ex_cars ''Horsepower'' = Inl KeyError"
    by blast
  from b(1) mn have "bottom_car = ''Tesla Model 3 Long Range''" by simp
  with b(2) e2 have r2: "bottom_performer ex_values ex_cars ''Horsepower'' = Inl KeyError"
    by simp
  from ne mx e1 r1 mn e2 r2 show ?thesis by (intro conjI)
qed

section \<open>Proofs: the collector's averages\<close>

lemma cell_update_other:
  "car \<noteq> a \<Longrightarrow> cell (AList.update a r m) car kpi = cell m car kpi"
  by (simp add: cell_def update_conv')

lemma present_values_cong:
  "\<forall>car \<in> set cars. cell m' car kpi = cell m car kpi
   \<Longrightarrow> present_values m' kpi cars = present_values m kpi cars"
  by (induction cars) (simp_all split: sum.splits option.splits)

lemma present_values_readable:
  "\<forall>car \<in> set cars. cell m car kpi = Inr (val car)
   \<Longrightarrow> present_values m kpi cars = Inr (List.map_filter val cars)"
proof (induction cars)
  case Nil
  show ?case by simp
next
  case (Cons car cars)
  then show ?case
    by (cases "val car") (simp_all add: err_bind_def)
qed

lemma num_val_statistics_mean:
  "num_val (statistics_mean vs) = sum_list (map num_val vs) / of_nat (length vs)"
  by (simp add: statistics_mean_def Let_def is_integer_def)

text \<open>What the loop stores for a KPI, given the cells \<open>val\<close> that it reads.\<close>

lemma average_loop_result:
  assumes "''Average'' \<notin> set cars"
    and "map_of m ''Average'' = Some arow"
    and "\<forall>car \<in> set cars. \<forall>kpi \<in> set kpis. cell m car kpi = Inr (val car kpi)"
  shows "\<exists>m' arow'. average_loop cars kpis m = Inr m' \<and> map_of m' ''Average'' = Some arow'
     \<and> (\<forall>c. c \<noteq> ''Average'' \<longrightarrow> map_of m' c = map_of m c)
     \<and> (\<forall>k. map_of arow' k =
           (if k \<in> set kpis
            then Some (Some (avg_value_of (List.map_filter (\<lambda>car. val car k) cars)))
            else map_of arow k))"
  using assms(2,3)
proof (induction kpis arbitrary: m arow)
  case Nil
  then show ?case by simp
next
  case (Cons kpi kpis)
  define avg where "avg = (\<lambda>k. avg_value_of (List.map_filter (\<lambda>car. val car k) cars))"
  define arow1 where "arow1 = AList.update kpi (Some (avg kpi)) arow"
  define m1 where "m1 = AList.update ''Average'' arow1 m"
  have "\<forall>car \<in> set cars. cell m car kpi = Inr (val car kpi)"
    using Cons.prems(2) by simp
  then have pv: "present_values m kpi cars = Inr (List.map_filter (\<lambda>car. val car kpi) cars)"
    by (rule present_values_readable)
  have step: "average_loop cars (kpi # kpis) m = average_loop cars kpis m1"
    unfolding m1_def arow1_def avg_def
    by (simp only: average_loop.simps pv err_bind_def sum.case Cons.prems(1) option.case)
  have a1: "map_of m1 ''Average'' = Some arow1"
    unfolding m1_def by (simp only: update_conv' fun_upd_same)
  have other: "\<forall>c. c \<noteq> ''Average'' \<longrightarrow> map_of m1 c = map_of m c"
    unfolding m1_def by (simp only: update_conv' fun_upd_apply) simp
  have cells: "\<forall>car \<in> set cars. \<forall>k \<in> set kpis. cell m1 car k = Inr (val car k)"
  proof (intro ballI)
    fix car k assume car: "car \<in> set cars" and k: "k \<in> set kpis"
    have "car \<noteq> ''Average''"
    proof
      assume "car = ''Average''"
      with car have "''Average'' \<in> set cars" by (simp only:)
      with assms(1) show False by (rule notE)
    qed
    then have "cell m1 car k = cell m car k"
      unfolding m1_def by (rule cell_update_other)
    moreover from Cons.prems(2) car k have "cell m car k = Inr (val car k)" by simp
    ultimately show "cell m1 car k = Inr (val car k)" by (rule trans)
  qed
  from Cons.IH [OF a1 cells] obtain m' arow' where
    r1: "average_loop cars kpis m1 = Inr m'" and r2: "map_of m' ''Average'' = Some arow'"
    and r3: "\<forall>c. c \<noteq> ''Average'' \<longrightarrow> map_of m' c = map_of m1 c"
    and r4: "\<forall>k. map_of arow' k = (if k \<in> set kpis then Some (Some (avg k)) else map_of arow1 k)"
    unfolding avg_def by (elim exE conjE)
  have row: "\<forall>k. map_of arow' k =
       (if k \<in> set (kpi # kpis) then Some (Some (avg k)) else map_of arow k)"
  proof
    fix k
    show "map_of arow' k = (if k \<in> set (kpi # kpis) then Some (Some (avg k)) else map_of arow k)"
      using r4 [rule_format, of k] by (simp add: arow1_def update_conv')
  qed
  have frame: "\<forall>c. c \<noteq> ''Average'' \<longrightarrow> map_of m' c = map_of m c"
  proof (intro allI impI)
    fix c :: string
    assume c: "c \<noteq> ''Average''"
    from r3 [rule_format, OF c] other [rule_format, OF c]
    show "map_of m' c = map_of m c" by (rule trans)
  qed
  have s: "average_loop cars (kpi # kpis) m = Inr m'"
    using step r1 by (rule trans)
  show ?case
    by (rule exI [of _ m'], rule exI [of _ arow']) (intro conjI s r2 frame row [unfolded avg_def])
qed

lemma map_filter_all_present:
  "\<forall>x \<in> set xs. f x \<noteq> None \<Longrightarrow> List.map_filter f xs = map (\<lambda>x. the (f x)) xs"
  by (induction xs) (auto simp: List.map_filter_simps)

lemma map_filter_none_present:
  "\<forall>x \<in> set xs. f x = None \<Longrightarrow> List.map_filter f xs = []"
  by (induction xs) (auto simp: List.map_filter_simps)

lemma filled_matrix_cell:
  "car \<in> set cars \<Longrightarrow> kpi \<in> set kpis
   \<Longrightarrow> cell (filled_matrix cars kpis val) car kpi = Inr (Some (val car kpi))"
proof -
  assume car: "car \<in> set cars" and kpi: "kpi \<in> set kpis"
  have row: "map_of (map (\<lambda>c. (c, f c)) cars) car = Some (f car)" for f :: "string \<Rightarrow> 'b"
    using car by (induction cars) auto
  have ent: "map_of (map (\<lambda>k. (k, g k)) kpis) kpi = Some (g kpi)" for g :: "string \<Rightarrow> 'c"
    using kpi by (induction kpis) auto
  show ?thesis
    unfolding cell_def filled_matrix_def by (simp only: row ent option.case)
qed

text \<open>When the car list names a car \<^verbatim>\<open>Average\<close>, line 135 has emptied that car's row and
  the first round of the loop raises \<^verbatim>\<open>KeyError\<close>.\<close>

lemma present_values_average_car:
  assumes "map_of m ''Average'' = Some []"
    and "''Average'' \<in> set cars"
    and "\<forall>car \<in> set cars. car \<noteq> ''Average'' \<longrightarrow> (\<exists>v. cell m car kpi = Inr v)"
  shows "present_values m kpi cars = Inl KeyError"
  using assms(2,3)
proof (induction cars)
  case Nil
  then show ?case by simp
next
  case (Cons car cars)
  show ?case
  proof (cases "car = ''Average''")
    case True
    with assms(1) have "cell m car kpi = Inl KeyError" by (simp add: cell_def)
    then show ?thesis by simp
  next
    case False
    with Cons.prems have "''Average'' \<in> set cars"
      and "\<forall>c \<in> set cars. c \<noteq> ''Average'' \<longrightarrow> (\<exists>v. cell m c kpi = Inr v)" by auto
    then have rest: "present_values m kpi cars = Inl KeyError" by (rule Cons.IH)
    from False Cons.prems(2) obtain v where "cell m car kpi = Inr v" by auto
    with rest show ?thesis by (cases v) (simp_all add: err_bind_def)
  qed
qed

lemma step3_average_car_raises:
  assumes "''Average'' \<in> set car_list"
    and "\<forall>car \<in> set car_list. car \<noteq> ''Average'' \<longrightarrow> (\<exists>v. cell m car kpi = Inr v)"
  shows "step3 car_list (kpi # kpis) m = Inl KeyError"
proof -
  let ?m0 = "AList.update ''Average'' [] m"
  have a: "map_of ?m0 ''Average'' = Some []" by (simp add: update_conv')
  have "\<forall>car \<in> set car_list. car \<noteq> ''Average'' \<longrightarrow> (\<exists>v. cell ?m0 car kpi = Inr v)"
    using assms(2) by (simp add: cell_update_other)
  with a assms(1) have "present_values ?m0 kpi car_list = Inl KeyError"
    by (rule present_values_average_car)
  then show ?thesis by (simp add: step3_def err_bind_def)
qed

text \<open>
  What step 3 does when no car of the list is named \<^verbatim>\<open>Average\<close>. Let the matrix hold a
  cell \<open>val car kpi\<close> (a number or \<^verbatim>\<open>None\<close>) for every car of the list and every KPI of the
  list. Then step 3 ends without an exception, changes no row but the \<^verbatim>\<open>Average\<close> row,
  and for every KPI of the list the \<^verbatim>\<open>Average\<close> row holds: the arithmetic mean of the
  present (non-\<^verbatim>\<open>None\<close>) values when there is one, which is the mean of all \<open>N\<close> values
  when the KPI is present for all \<open>N\<close> cars of a non-empty list; and the int 0 when no
  value is present.
\<close>

lemma step3_average_is_mean:
  assumes "''Average'' \<notin> set car_list"
    and "\<forall>car \<in> set car_list. \<forall>kpi \<in> set kpi_list. cell car_kpi_data car kpi = Inr (val car kpi)"
  shows "\<exists>m'. step3 car_list kpi_list car_kpi_data = Inr m'
          \<and> (\<forall>car. car \<noteq> ''Average'' \<longrightarrow> map_of m' car = map_of car_kpi_data car)
          \<and> (\<forall>kpi \<in> set kpi_list. \<exists>avg. cell m' ''Average'' kpi = Inr (Some avg)
               \<and> (List.map_filter (\<lambda>car. val car kpi) car_list \<noteq> [] \<longrightarrow>
                    num_val avg =
                      sum_list (map num_val (List.map_filter (\<lambda>car. val car kpi) car_list))
                      / of_nat (length (List.map_filter (\<lambda>car. val car kpi) car_list)))
               \<and> (car_list \<noteq> [] \<and> (\<forall>car \<in> set car_list. val car kpi \<noteq> None) \<longrightarrow>
                    num_val avg =
                      (\<Sum>car\<leftarrow>car_list. num_val (the (val car kpi))) / of_nat (length car_list))
               \<and> ((\<forall>car \<in> set car_list. val car kpi = None) \<longrightarrow> avg = PyInt 0))"
proof -
  define m0 where "m0 = AList.update ''Average'' [] car_kpi_data"
  have a: "map_of m0 ''Average'' = Some []"
    unfolding m0_def by (simp only: update_conv' fun_upd_same)
  have other: "\<forall>c. c \<noteq> ''Average'' \<longrightarrow> map_of m0 c = map_of car_kpi_data c"
    unfolding m0_def by (simp only: update_conv' fun_upd_apply) simp
  have cells: "\<forall>car \<in> set car_list. \<forall>kpi \<in> set kpi_list. cell m0 car kpi = Inr (val car kpi)"
  proof (intro ballI)
    fix car kpi assume car: "car \<in> set car_list" and kpi: "kpi \<in> set kpi_list"
    have "car \<noteq> ''Average''"
    proof
      assume "car = ''Average''"
      with car have "''Average'' \<in> set car_list" by (simp only:)
      with assms(1) show False by (rule notE)
    qed
    then have "cell m0 car kpi = cell car_kpi_data car kpi"
      unfolding m0_def by (rule cell_update_other)
    moreover from assms(2) car kpi have "cell car_kpi_data car kpi = Inr (val car kpi)" by simp
    ultimately show "cell m0 car kpi = Inr (val car kpi)" by (rule trans)
  qed
  from average_loop_result [OF assms(1) a cells] obtain m' arow' where
    r1: "average_loop car_list kpi_list m0 = Inr m'" and r2: "map_of m' ''Average'' = Some arow'"
    and r3: "\<forall>c. c \<noteq> ''Average'' \<longrightarrow> map_of m' c = map_of m0 c"
    and r4: "\<forall>k. map_of arow' k =
           (if k \<in> set kpi_list
            then Some (Some (avg_value_of (List.map_filter (\<lambda>car. val car k) car_list)))
            else map_of [] k)"
    by (elim exE conjE)
  have s: "step3 car_list kpi_list car_kpi_data = Inr m'"
    unfolding step3_def using r1 by (simp only: m0_def)
  have frame: "\<forall>car. car \<noteq> ''Average'' \<longrightarrow> map_of m' car = map_of car_kpi_data car"
  proof (intro allI impI)
    fix c :: string
    assume c: "c \<noteq> ''Average''"
    from r3 [rule_format, OF c] other [rule_format, OF c]
    show "map_of m' c = map_of car_kpi_data c" by (rule trans)
  qed
  have avgs: "\<forall>kpi \<in> set kpi_list. \<exists>avg. cell m' ''Average'' kpi = Inr (Some avg)
               \<and> (List.map_filter (\<lambda>car. val car kpi) car_list \<noteq> [] \<longrightarrow>
                    num_val avg =
                      sum_list (map num_val (List.map_filter (\<lambda>car. val car kpi) car_list))
                      / of_nat (length (List.map_filter (\<lambda>car. val car kpi) car_list)))
               \<and> (car_list \<noteq> [] \<and> (\<forall>car \<in> set car_list. val car kpi \<noteq> None) \<longrightarrow>
                    num_val avg =
                      (\<Sum>car\<leftarrow>car_list. num_val (the (val car kpi))) / of_nat (length car_list))
               \<and> ((\<forall>car \<in> set car_list. val car kpi = None) \<longrightarrow> avg = PyInt 0)"
  proof
    fix kpi assume kpi: "kpi \<in> set kpi_list"
    define vs where "vs = List.map_filter (\<lambda>car. val car kpi) car_list"
    from r4 [rule_format, of kpi] kpi have "map_of arow' kpi = Some (Some (avg_value_of vs))"
      by (simp add: vs_def)
    with r2 have c: "cell m' ''Average'' kpi = Inr (Some (avg_value_of vs))"
      by (simp add: cell_def)
    have g: "vs \<noteq> [] \<longrightarrow> num_val (avg_value_of vs) = sum_list (map num_val vs) / of_nat (length vs)"
      by (simp add: avg_value_of_def num_val_statistics_mean)
    have n: "car_list \<noteq> [] \<and> (\<forall>car \<in> set car_list. val car kpi \<noteq> None) \<longrightarrow>
          num_val (avg_value_of vs) =
            (\<Sum>car\<leftarrow>car_list. num_val (the (val car kpi))) / of_nat (length car_list)"
    proof
      assume h: "car_list \<noteq> [] \<and> (\<forall>car \<in> set car_list. val car kpi \<noteq> None)"
      then have "vs = map (\<lambda>car. the (val car kpi)) car_list"
        unfolding vs_def by (intro map_filter_all_present) simp
      with h show "num_val (avg_value_of vs) =
            (\<Sum>car\<leftarrow>car_list. num_val (the (val car kpi))) / of_nat (length car_list)"
        by (simp add: avg_value_of_def num_val_statistics_mean comp_def)
    qed
    have z: "(\<forall>car \<in> set car_list. val car kpi = None) \<longrightarrow> avg_value_of vs = PyInt 0"
    proof
      assume "\<forall>car \<in> set car_list. val car kpi = None"
      then have "vs = []" unfolding vs_def by (rule map_filter_none_present)
      then show "avg_value_of vs = PyInt 0" by (simp add: avg_value_of_def)
    qed
    from c g n z
    show "\<exists>avg. cell m' ''Average'' kpi = Inr (Some avg)
               \<and> (List.map_filter (\<lambda>car. val car kpi) car_list \<noteq> [] \<longrightarrow>
                    num_val avg =
                      sum_list (map num_val (List.map_filter (\<lambda>car. val car kpi) car_list))
                      / of_nat (length (List.map_filter (\<lambda>car. val car kpi) car_list)))
               \<and> (car_list \<noteq> [] \<and> (\<forall>car \<in> set car_list. val car kpi \<noteq> None) \<longrightarrow>
                    num_val avg =
                      (\<Sum>car\<leftarrow>car_list. num_val (the (val car kpi))) / of_nat (length car_list))
               \<and> ((\<forall>car \<in> set car_list. val car kpi = None) \<longrightarrow> avg = PyInt 0)"
      unfolding vs_def by (intro exI [of _ "avg_value_of (List.map_filter (\<lambda>car. val car kpi) car_list)"] conjI)
  qed
  show ?thesis
    by (rule exI [of _ m']) (intro conjI s frame avgs)
qed

text \<open>Twenty cars with a value for every KPI: step 3 stores the mean 182.5 of the
  twenty horsepower values.\<close>

lemma step3_average_is_mean_example:
  "''Average'' \<notin> set ex_cars20 \<and> length ex_cars20 = 20
   \<and> (\<exists>m'. step3 ex_cars20 ex_kpis (filled_matrix ex_cars20 ex_kpis ex_val) = Inr m'
         \<and> (\<exists>avg. cell m' ''Average'' ''Horsepower'' = Inr (Some avg) \<and> num_val avg = 365 / 2))"
proof -
  define val where "val = (\<lambda>car kpi. Some (ex_val car kpi))"
  have h1: "''Average'' \<notin> set ex_cars20"
    by (simp add: ex_cars20_def ex_cars19_def)
  have len: "length ex_cars20 = 20"
    by (simp add: ex_cars20_def ex_cars19_def)
  have h2: "\<forall>car \<in> set ex_cars20. \<forall>kpi \<in> set ex_kpis.
      cell (filled_matrix ex_cars20 ex_kpis ex_val) car kpi = Inr (val car kpi)"
    unfolding val_def by (intro ballI filled_matrix_cell)
  from step3_average_is_mean [OF h1 h2] obtain m' where
    s: "step3 ex_cars20 ex_kpis (filled_matrix ex_cars20 ex_kpis ex_val) = Inr m'"
    and a: "\<forall>kpi \<in> set ex_kpis. \<exists>avg. cell m' ''Average'' kpi = Inr (Some avg)
               \<and> (List.map_filter (\<lambda>car. val car kpi) ex_cars20 \<noteq> [] \<longrightarrow>
                    num_val avg =
                      sum_list (map num_val (List.map_filter (\<lambda>car. val car kpi) ex_cars20))
                      / of_nat (length (List.map_filter (\<lambda>car. val car kpi) ex_cars20)))
               \<and> (ex_cars20 \<noteq> [] \<and> (\<forall>car \<in> set ex_cars20. val car kpi \<noteq> None) \<longrightarrow>
                    num_val avg =
                      (\<Sum>car\<leftarrow>ex_cars20. num_val (the (val car kpi))) / of_nat (length ex_cars20))
               \<and> ((\<forall>car \<in> set ex_cars20. val car kpi = None) \<longrightarrow> avg = PyInt 0)"
    by (elim exE conjE)
  have k: "''Horsepower'' \<in> set ex_kpis" by (simp add: ex_kpis_def)
  from a [rule_format, OF k] obtain avg where
    c: "cell m' ''Average'' ''Horsepower'' = Inr (Some avg)"
    and n: "ex_cars20 \<noteq> [] \<and> (\<forall>car \<in> set ex_cars20. val car ''Horsepower'' \<noteq> None) \<longrightarrow>
              num_val avg =
                (\<Sum>car\<leftarrow>ex_cars20. num_val (the (val car ''Horsepower''))) / of_nat (length ex_cars20)"
    by (elim exE conjE)
  have p: "ex_cars20 \<noteq> [] \<and> (\<forall>car \<in> set ex_cars20. val car ''Horsepower'' \<noteq> None)"
    using len by (auto simp: val_def)
  have v: "(\<Sum>car\<leftarrow>ex_cars20. num_val (the (val car ''Horsepower''))) / of_nat (length ex_cars20)
           = 365 / 2"
    by (simp add: val_def ex_val_def ex_cars20_def ex_cars19_def)
  from n [THEN mp, OF p] v have "num_val avg = 365 / 2" by (rule trans)
  with c have "\<exists>avg. cell m' ''Average'' ''Horsepower'' = Inr (Some avg) \<and> num_val avg = 365 / 2"
    by blast
  with s have "\<exists>m'. step3 ex_cars20 ex_kpis (filled_matrix ex_cars20 ex_kpis ex_val) = Inr m'
         \<and> (\<exists>avg. cell m' ''Average'' ''Horsepower'' = Inr (Some avg) \<and> num_val avg = 365 / 2)"
    by blast
  with h1 len show ?thesis by (intro conjI)
qed

text \<open>
  Claim C4 says that for a filled matrix of \<open>N\<close> cars and a KPI present for all of them,
  the stored \<^verbatim>\<open>Average\<close> entry is the arithmetic mean of the \<open>N\<close> values. Step 3 misses
  this when one of the cars is named \<^verbatim>\<open>Average\<close>. Twenty cars, the last of them so named,
  each with a value for every KPI: line 135, which its comment says adds a new entry,
  replaces that car's row by the empty dictionary, and the first round of the loop
  raises \<^verbatim>\<open>KeyError\<close>; no average is stored.
\<close>

theorem step3_average_car_key_error:
  "length ex_cars20_avg = 20
   \<and> list_all (\<lambda>car. list_all (\<lambda>kpi.
         cell (filled_matrix ex_cars20_avg ex_kpis ex_val) car kpi = Inr (Some (ex_val car kpi)))
       ex_kpis) ex_cars20_avg
   \<and> step3 ex_cars20_avg ex_kpis (filled_matrix ex_cars20_avg ex_kpis ex_val) = Inl KeyError"
proof -
  have len: "length ex_cars20_avg = 20"
    by (simp add: ex_cars20_avg_def ex_cars19_def)
  have filled: "list_all (\<lambda>car. list_all (\<lambda>kpi.
         cell (filled_matrix ex_cars20_avg ex_kpis ex_val) car kpi = Inr (Some (ex_val car kpi)))
       ex_kpis) ex_cars20_avg"
    unfolding list_all_iff by (intro ballI filled_matrix_cell)
  have k: "ex_kpis = ''Horsepower'' # [''Range (miles)'']" by (simp add: ex_kpis_def)
  have hp: "''Horsepower'' \<in> set ex_kpis" by (simp add: ex_kpis_def)
  have a: "''Average'' \<in> set ex_cars20_avg" by (simp add: ex_cars20_avg_def)
  have r: "\<forall>car \<in> set ex_cars20_avg. car \<noteq> ''Average'' \<longrightarrow>
      (\<exists>v. cell (filled_matrix ex_cars20_avg ex_kpis ex_val) car ''Horsepower'' = Inr v)"
    using filled_matrix_cell [OF _ hp, of _ ex_cars20_avg ex_val] by blast
  have "step3 ex_cars20_avg (''Horsepower'' # [''Range (miles)''])
          (filled_matrix ex_cars20_avg ex_kpis ex_val) = Inl KeyError"
    using a r by (rule step3_average_car_raises)
  then have s: "step3 ex_cars20_avg ex_kpis (filled_matrix ex_cars20_avg ex_kpis ex_val)
      = Inl KeyError" by (simp only: k [symmetric])
  from len filled s show ?thesis by (intro conjI)
qed

section \<open>Proofs: the collector's catalog\<close>

subsection \<open>The random sample\<close>

lemma pool_step_snoc:
  assumes "distinct (ys @ [l])" and "j < length (ys @ [l])"
  shows "distinct (butlast ((ys @ [l])[j := l]))
         \<and> set (butlast ((ys @ [l])[j := l])) = set (ys @ [l]) - {(ys @ [l]) ! j}
         \<and> length (butlast ((ys @ [l])[j := l])) = length ys"
proof -
  from assms(1) have d: "distinct ys" and l: "l \<notin> set ys" by simp_all
  show ?thesis
  proof (cases "j < length ys")
    case True
    have bl: "butlast ((ys @ [l])[j := l]) = ys[j := l]"
      using True by (simp add: list_update_append1)
    have nth: "(ys @ [l]) ! j = ys ! j" using True by (simp add: nth_append)
    have s: "set (ys[j := l]) = insert l (set ys - {ys ! j})"
      using d True by (rule set_update_distinct)
    have dd: "distinct (ys[j := l])"
      using d l by (intro distinct_list_update) auto
    have "ys ! j \<in> set ys" using True by simp
    with l have ne: "ys ! j \<noteq> l" by auto
    have st: "set (ys[j := l]) = set (ys @ [l]) - {ys ! j}"
      unfolding s using ne l by auto
    show ?thesis unfolding bl nth using dd st by simp
  next
    case False
    with assms(2) have j: "j = length ys" by simp
    have bl: "butlast ((ys @ [l])[j := l]) = ys" by (simp add: j)
    have nth: "(ys @ [l]) ! j = l" by (simp add: j)
    show ?thesis unfolding bl nth using d l by auto
  qed
qed

lemma pool_step:
  assumes "distinct pool" and "j < length pool"
  shows "distinct (butlast (pool[j := last pool]))
         \<and> set (butlast (pool[j := last pool])) = set pool - {pool ! j}
         \<and> length (butlast (pool[j := last pool])) = length pool - 1"
proof (cases pool rule: rev_cases)
  case Nil
  with assms(2) show ?thesis by simp
next
  case (snoc ys l)
  from pool_step_snoc [of ys l j] assms show ?thesis
    unfolding snoc by simp
qed

lemma sample_loop_sound:
  "distinct pool \<Longrightarrow> k \<le> length pool
   \<Longrightarrow> length (sample_loop rng i k pool) = k
       \<and> distinct (sample_loop rng i k pool)
       \<and> set (sample_loop rng i k pool) \<subseteq> set pool"
proof (induction k arbitrary: i pool)
  case 0
  show ?case by simp
next
  case (Suc k)
  define j where "j = rng i mod length pool"
  define pool' where "pool' = butlast (pool[j := last pool])"
  from Suc.prems(2) have pos: "0 < length pool" by (cases pool) simp_all
  then have j: "j < length pool" by (simp add: j_def)
  from pool_step [OF Suc.prems(1) j]
  have d': "distinct pool'" and s': "set pool' = set pool - {pool ! j}"
    and l': "length pool' = length pool - 1" by (simp_all add: pool'_def)
  from l' Suc.prems(2) have "k \<le> length pool'" by simp
  from Suc.IH [OF d' this, of "Suc i"]
  have ih: "length (sample_loop rng (Suc i) k pool') = k"
    "distinct (sample_loop rng (Suc i) k pool')"
    "set (sample_loop rng (Suc i) k pool') \<subseteq> set pool'" by simp_all
  have unfold: "sample_loop rng i (Suc k) pool = pool ! j # sample_loop rng (Suc i) k pool'"
    by (simp add: j_def pool'_def Let_def)
  from j have "pool ! j \<in> set pool" by simp
  with ih s' show ?case unfolding unfold by auto
qed

lemma available_kpis_eq: "available_kpis = all_kpis"
  by (simp add: available_kpis_def all_kpis_def excluded_kpis_def)

lemma distinct_all_kpis: "distinct all_kpis"
  by (simp add: all_kpis_def)

lemma length_all_kpis: "length all_kpis = 9"
  by (simp add: all_kpis_def)

lemma available_not_excluded: "set available_kpis \<inter> set excluded_kpis = {}"
  by (auto simp: available_kpis_def)

lemma random_sample_kpis:
  "\<exists>kpi_list. random_sample rng available_kpis 5 = Inr kpi_list
      \<and> length kpi_list = 5 \<and> distinct kpi_list
      \<and> set kpi_list \<subseteq> set all_kpis \<and> set kpi_list \<inter> set excluded_kpis = {}"
proof -
  have d: "distinct available_kpis" by (simp add: available_kpis_eq distinct_all_kpis)
  have l: "5 \<le> length available_kpis" by (simp add: available_kpis_eq length_all_kpis)
  from sample_loop_sound [OF d l, of rng 0]
  have s: "length (sample_loop rng 0 5 available_kpis) = 5"
    "distinct (sample_loop rng 0 5 available_kpis)"
    "set (sample_loop rng 0 5 available_kpis) \<subseteq> set available_kpis" by simp_all
  from s(3) available_not_excluded
  have x: "set (sample_loop rng 0 5 available_kpis) \<inter> set excluded_kpis = {}" by blast
  from s(3) have y: "set (sample_loop rng 0 5 available_kpis) \<subseteq> set all_kpis"
    by (simp add: available_kpis_eq)
  have r: "random_sample rng available_kpis 5 = Inr (sample_loop rng 0 5 available_kpis)"
    using l by (simp add: random_sample_def)
  show ?thesis
    by (rule exI [of _ "sample_loop rng 0 5 available_kpis"]) (intro conjI r s(1) s(2) y x)
qed

subsection \<open>Loading and regenerating\<close>

lemma key_in_iff: "k \<in> fst ` set kvs \<longleftrightarrow> map_of kvs k \<noteq> None"
  by (simp add: map_of_eq_None_iff)

lemma load_catalog_obj:
  "load_catalog (Parsed (JObj kvs)) =
     (case map_of kvs ''top_5_KPIs'' of
        None \<Rightarrow> Inl KeyError
      | Some kpi_list \<Rightarrow>
          (case catalog_car_list kvs of
             None \<Rightarrow> Inl KeyError
           | Some car_list \<Rightarrow>
               err_bind (py_len car_list) (\<lambda>n.
                 if n \<noteq> 20 then Inl KeyError else Inr (kpi_list, car_list))))"
proof (cases "map_of kvs ''top_5_KPIs''")
  case None
  then show ?thesis by (simp add: load_catalog_def err_bind_def)
next
  case kl: (Some kpi_list)
  show ?thesis
  proof (cases "map_of kvs ''top_cars_US_2024''")
    case new: (Some car_list)
    with kl show ?thesis
      by (simp add: load_catalog_def err_bind_def key_in_iff catalog_car_list_def)
  next
    case new: None
    show ?thesis
    proof (cases "map_of kvs ''top_bought_cars_US''")
      case None
      with kl new show ?thesis
        by (simp add: load_catalog_def err_bind_def key_in_iff catalog_car_list_def)
    next
      case (Some car_list)
      with kl new show ?thesis
        by (simp add: load_catalog_def err_bind_def key_in_iff catalog_car_list_def)
    qed
  qed
qed

lemma load_catalog_ok:
  assumes "map_of kvs ''top_5_KPIs'' = Some kpi_list"
    and "catalog_car_list kvs = Some car_list" and "py_len car_list = Inr 20"
  shows "load_catalog (Parsed (JObj kvs)) = Inr (kpi_list, car_list)"
  using assms by (simp add: load_catalog_obj err_bind_def)

lemma load_catalog_key_error:
  assumes "map_of kvs ''top_5_KPIs'' = None \<or> catalog_car_list kvs = None
           \<or> (\<exists>car_list n. catalog_car_list kvs = Some car_list \<and> py_len car_list = Inr n \<and> n \<noteq> 20)"
  shows "load_catalog (Parsed (JObj kvs)) = Inl KeyError"
  using assms by (auto simp: load_catalog_obj err_bind_def split: option.splits)

lemma step1_regenerates:
  assumes "load_catalog (catalog_file w) = Inl e"
    and "e = FileNotFoundError \<or> e = JSONDecodeError \<or> e = KeyError"
  shows "step1 api rng w = regenerate api rng w"
  using assms by (auto simp: step1_def)

lemma step1_loaded:
  assumes "load_catalog (catalog_file w) = Inr (kpi_list, car_list)"
  shows "step1 api rng w = (w, Proceed kpi_list car_list)"
  using assms by (simp add: step1_def)

lemma load_catalog_round_trip:
  assumes "length car_list = 20"
  shows "load_catalog (Parsed (catalog_json car_list kpi_list))
         = Inr (JArr (map JStr kpi_list), JArr (map JStr car_list))"
  unfolding catalog_json_def
  by (rule load_catalog_ok) (simp_all add: catalog_car_list_def assms)

lemma regenerate_log: "api_log (fst (regenerate api rng w)) = api_log w @ [prompt_cars]"
  by (simp add: regenerate_def Let_def split: sum.splits option.splits)

lemma regenerate_fetch_failed:
  assumes "fetch_car_list (api prompt_cars) = Inr None"
  shows "regenerate api rng w = (w\<lparr>api_log := api_log w @ [prompt_cars]\<rparr>, Exit 1)"
  using assms by (simp add: regenerate_def Let_def)

lemma regenerate_not_20:
  assumes "fetch_car_list (api prompt_cars) = Inr (Some cars)" and "length cars \<noteq> 20"
  shows "regenerate api rng w = (w\<lparr>api_log := api_log w @ [prompt_cars]\<rparr>, Exit 1)"
  using assms by (simp add: regenerate_def Let_def)

lemma regenerate_success:
  assumes "fetch_car_list (api prompt_cars) = Inr (Some cars)" and "length cars = 20"
  shows "\<exists>kpis. regenerate api rng w =
            (w\<lparr>api_log := api_log w @ [prompt_cars],
               catalog_file := Parsed (catalog_json cars kpis)\<rparr>,
             Proceed (JArr (map JStr kpis)) (JArr (map JStr cars)))
          \<and> length kpis = 5 \<and> distinct kpis
          \<and> set kpis \<subseteq> set all_kpis \<and> set kpis \<inter> set excluded_kpis = {}"
proof -
  from random_sample_kpis [of rng] obtain kpis where
    k: "random_sample rng available_kpis 5 = Inr kpis"
    and p: "length kpis = 5" "distinct kpis" "set kpis \<subseteq> set all_kpis"
      "set kpis \<inter> set excluded_kpis = {}"
    by (elim exE conjE)
  have "regenerate api rng w =
            (w\<lparr>api_log := api_log w @ [prompt_cars],
               catalog_file := Parsed (catalog_json cars kpis)\<rparr>,
             Proceed (JArr (map JStr kpis)) (JArr (map JStr cars)))"
    using assms k by (simp add: regenerate_def Let_def)
  with p show ?thesis by blast
qed

lemma regenerate_proceed_cases:
  assumes "regenerate api rng w = (w', Proceed k c)"
  shows "\<exists>cars kpis. length cars = 20
      \<and> w' = w\<lparr>api_log := api_log w @ [prompt_cars],
               catalog_file := Parsed (catalog_json cars kpis)\<rparr>
      \<and> k = JArr (map JStr kpis) \<and> c = JArr (map JStr cars)"
  using assms
  by (auto simp: regenerate_def Let_def split: sum.splits option.splits if_splits)

lemma regenerate_no_proceed:
  assumes "\<forall>k c. snd (regenerate api rng w) \<noteq> Proceed k c"
  shows "exit_status (snd (regenerate api rng w)) = Some 1
         \<and> catalog_file (fst (regenerate api rng w)) = catalog_file w"
  using assms
  by (auto simp: regenerate_def Let_def split: sum.splits option.splits if_splits)

lemma fetch_no_response: "fetch_car_list None = Inr None"
  by (simp add: fetch_car_list_def has_choices_def err_bind_def)

lemma fetch_no_choices:
  assumes "map_of kvs ''choices'' = None \<or> map_of kvs ''choices'' = Some (JArr [])"
  shows "fetch_car_list (Some (JObj kvs)) = Inr None"
  using assms
  by (auto simp: fetch_car_list_def has_choices_def err_bind_def key_in_iff)

lemma fetch_api_reply:
  "fetch_car_list (Some (api_reply content))
   = Inr (Some (filter (\<lambda>car. car \<noteq> []) (map py_strip (py_split (CHR 0x0A) (py_strip content)))))"
  by (simp add: fetch_car_list_def has_choices_def first_content_def api_reply_def err_bind_def)

lemma fetch_ex_cars20: "fetch_car_list (ex_api ex_cars20 prompt) = Inr (Some ex_cars20)"
  unfolding ex_api_def fetch_api_reply
  by (simp add: ex_cars20_def ex_cars19_def py_strip_def is_space_def)

lemma fetch_ex_cars19: "fetch_car_list (ex_api ex_cars19 prompt) = Inr (Some ex_cars19)"
  unfolding ex_api_def fetch_api_reply
  by (simp add: ex_cars19_def py_strip_def is_space_def)

lemma length_ex_cars20: "length ex_cars20 = 20"
  by (simp add: ex_cars20_def ex_cars19_def)

lemma length_ex_cars19: "length ex_cars19 = 19"
  by (simp add: ex_cars19_def)

subsection \<open>The claims about the catalog\<close>

text \<open>
  Claim C6, as amended. On start the regeneration branch runs when the catalog file is
  absent, is not JSON, or is an object that lacks the KPI list, lacks a car list under
  both keys, or has a car list whose length is not 20. The branch sends the car-list
  prompt; when the reply yields 20 names it draws 5 distinct KPIs of the pool of 9,
  none of them one of the 3 banned ones, writes the new catalog and goes on with it.
  When the file is an object with a KPI list and a car list of length 20, step 1 goes
  on with these and leaves the world as it was: nothing is sent and nothing is written.
\<close>

theorem step1_load_or_regenerate:
  "(catalog_file w = NoFile \<or> catalog_file w = BadJSON
      \<or> (\<exists>kvs. catalog_file w = Parsed (JObj kvs)
            \<and> (map_of kvs ''top_5_KPIs'' = None \<or> catalog_car_list kvs = None
                \<or> (\<exists>car_list n. catalog_car_list kvs = Some car_list
                       \<and> py_len car_list = Inr n \<and> n \<noteq> 20)))
      \<longrightarrow> step1 api rng w = regenerate api rng w)
   \<and> api_log (fst (regenerate api rng w)) = api_log w @ [prompt_cars]
   \<and> (\<forall>cars. fetch_car_list (api prompt_cars) = Inr (Some cars) \<and> length cars = 20 \<longrightarrow>
         (\<exists>kpis. regenerate api rng w =
              (w\<lparr>api_log := api_log w @ [prompt_cars],
                 catalog_file := Parsed (catalog_json cars kpis)\<rparr>,
               Proceed (JArr (map JStr kpis)) (JArr (map JStr cars)))
            \<and> length kpis = 5 \<and> distinct kpis
            \<and> set kpis \<subseteq> set all_kpis \<and> set kpis \<inter> set excluded_kpis = {}))
   \<and> length all_kpis = 9 \<and> length excluded_kpis = 3
   \<and> (\<forall>kvs kpi_list car_list.
         catalog_file w = Parsed (JObj kvs) \<and> map_of kvs ''top_5_KPIs'' = Some kpi_list
         \<and> catalog_car_list kvs = Some car_list \<and> py_len car_list = Inr 20
         \<longrightarrow> step1 api rng w = (w, Proceed kpi_list car_list))"
proof (intro conjI impI allI)
  assume h: "catalog_file w = NoFile \<or> catalog_file w = BadJSON
      \<or> (\<exists>kvs. catalog_file w = Parsed (JObj kvs)
            \<and> (map_of kvs ''top_5_KPIs'' = None \<or> catalog_car_list kvs = None
                \<or> (\<exists>car_list n. catalog_car_list kvs = Some car_list
                       \<and> py_len car_list = Inr n \<and> n \<noteq> 20)))"
  then consider "catalog_file w = NoFile" | "catalog_file w = BadJSON"
    | kvs where "catalog_file w = Parsed (JObj kvs)"
        "map_of kvs ''top_5_KPIs'' = None \<or> catalog_car_list kvs = None
         \<or> (\<exists>car_list n. catalog_car_list kvs = Some car_list
                \<and> py_len car_list = Inr n \<and> n \<noteq> 20)"
    by blast
  then obtain e where "load_catalog (catalog_file w) = Inl e"
    and "e = FileNotFoundError \<or> e = JSONDecodeError \<or> e = KeyError"
  proof cases
    case 1
    then have "load_catalog (catalog_file w) = Inl FileNotFoundError"
      by (simp add: load_catalog_def)
    then show ?thesis using that by blast
  next
    case 2
    then have "load_catalog (catalog_file w) = Inl JSONDecodeError"
      by (simp add: load_catalog_def)
    then show ?thesis using that by blast
  next
    case 3
    from load_catalog_key_error [OF 3(2)] 3(1)
    have "load_catalog (catalog_file w) = Inl KeyError" by simp
    then show ?thesis using that by blast
  qed
  then show "step1 api rng w = regenerate api rng w" by (rule step1_regenerates)
next
  show "api_log (fst (regenerate api rng w)) = api_log w @ [prompt_cars]"
    by (rule regenerate_log)
next
  fix cars
  assume "fetch_car_list (api prompt_cars) = Inr (Some cars) \<and> length cars = 20"
  then have "fetch_car_list (api prompt_cars) = Inr (Some cars)" and "length cars = 20"
    by simp_all
  then show "\<exists>kpis. regenerate api rng w =
              (w\<lparr>api_log := api_log w @ [prompt_cars],
                 catalog_file := Parsed (catalog_json cars kpis)\<rparr>,
               Proceed (JArr (map JStr kpis)) (JArr (map JStr cars)))
            \<and> length kpis = 5 \<and> distinct kpis
            \<and> set kpis \<subseteq> set all_kpis \<and> set kpis \<inter> set excluded_kpis = {}"
    by (rule regenerate_success)
next
  show "length all_kpis = 9" by (rule length_all_kpis)
next
  show "length excluded_kpis = 3" by (simp add: excluded_kpis_def)
next
  fix kvs kpi_list car_list
  assume "catalog_file w = Parsed (JObj kvs) \<and> map_of kvs ''top_5_KPIs'' = Some kpi_list
         \<and> catalog_car_list kvs = Some car_list \<and> py_len car_list = Inr 20"
  then have f: "catalog_file w = Parsed (JObj kvs)"
    and a: "map_of kvs ''top_5_KPIs'' = Some kpi_list"
    and b: "catalog_car_list kvs = Some car_list" and c: "py_len car_list = Inr 20"
    by simp_all
  from load_catalog_ok [OF a b c] f
  have "load_catalog (catalog_file w) = Inr (kpi_list, car_list)" by simp
  then show "step1 api rng w = (w, Proceed kpi_list car_list)" by (rule step1_loaded)
qed

text \<open>A catalog file with 19 cars: step 1 regenerates, and with an API that answers
  with 20 names it writes a new catalog. A catalog file with 20 cars and 5 KPIs: step 1
  goes on with them and the world is unchanged.\<close>

theorem step1_load_or_regenerate_witness:
  "length ex_cars19 = 19
   \<and> step1 (ex_api ex_cars20) (\<lambda>i. 0) (ex_world (catalog_json ex_cars19 ex_kpis5))
       = regenerate (ex_api ex_cars20) (\<lambda>i. 0) (ex_world (catalog_json ex_cars19 ex_kpis5))
   \<and> (\<exists>kpis. regenerate (ex_api ex_cars20) (\<lambda>i. 0) (ex_world (catalog_json ex_cars19 ex_kpis5))
         = (\<lparr>catalog_file = Parsed (catalog_json ex_cars20 kpis), api_log = [prompt_cars]\<rparr>,
            Proceed (JArr (map JStr kpis)) (JArr (map JStr ex_cars20)))
       \<and> length kpis = 5 \<and> distinct kpis)
   \<and> step1 (ex_api ex_cars20) (\<lambda>i. 0) (ex_world (catalog_json ex_cars20 ex_kpis5))
       = (ex_world (catalog_json ex_cars20 ex_kpis5),
          Proceed (JArr (map JStr ex_kpis5)) (JArr (map JStr ex_cars20)))"
proof -
  define api where "api = ex_api ex_cars20"
  define rng where "rng = (\<lambda>i::nat. 0::nat)"
  define w19 where "w19 = ex_world (catalog_json ex_cars19 ex_kpis5)"
  define w20 where "w20 = ex_world (catalog_json ex_cars20 ex_kpis5)"
  define kvs19 where "kvs19 = [(''top_cars_US_2024'', JArr (map JStr ex_cars19)),
           (''top_5_KPIs'', JArr (map JStr ex_kpis5))]"
  define kvs20 where "kvs20 = [(''top_cars_US_2024'', JArr (map JStr ex_cars20)),
           (''top_5_KPIs'', JArr (map JStr ex_kpis5))]"
  have f19: "catalog_file w19 = Parsed (JObj kvs19)"
    by (simp add: w19_def ex_world_def catalog_json_def kvs19_def)
  have c19: "catalog_car_list kvs19 = Some (JArr (map JStr ex_cars19))"
    by (simp add: catalog_car_list_def kvs19_def)
  have l19: "py_len (JArr (map JStr ex_cars19)) = Inr 19"
    by (simp add: length_ex_cars19)
  have h19: "catalog_file w19 = NoFile \<or> catalog_file w19 = BadJSON
      \<or> (\<exists>kvs. catalog_file w19 = Parsed (JObj kvs)
            \<and> (map_of kvs ''top_5_KPIs'' = None \<or> catalog_car_list kvs = None
                \<or> (\<exists>car_list n. catalog_car_list kvs = Some car_list
                       \<and> py_len car_list = Inr n \<and> n \<noteq> 20)))"
    using f19 c19 l19 by (intro disjI2 exI [of _ kvs19] conjI exI [of _ "19::nat"]) simp_all
  have f20: "catalog_file w20 = Parsed (JObj kvs20)"
    by (simp add: w20_def ex_world_def catalog_json_def kvs20_def)
  have h20: "catalog_file w20 = Parsed (JObj kvs20)
         \<and> map_of kvs20 ''top_5_KPIs'' = Some (JArr (map JStr ex_kpis5))
         \<and> catalog_car_list kvs20 = Some (JArr (map JStr ex_cars20))
         \<and> py_len (JArr (map JStr ex_cars20)) = Inr 20"
    using f20 by (simp add: catalog_car_list_def kvs20_def length_ex_cars20)
  have fe: "fetch_car_list (api prompt_cars) = Inr (Some ex_cars20) \<and> length ex_cars20 = 20"
    unfolding api_def by (simp add: fetch_ex_cars20 length_ex_cars20)
  have log: "api_log w19 = []" by (simp add: w19_def ex_world_def)
  note T19 = step1_load_or_regenerate [of w19 api rng]
  note T20 = step1_load_or_regenerate [of w20 api rng]
  from T19 [THEN conjunct1, THEN mp, OF h19]
  have r1: "step1 api rng w19 = regenerate api rng w19" .
  from T19 [THEN conjunct2, THEN conjunct2, THEN conjunct1, rule_format, OF fe]
  obtain kpis where
    g: "regenerate api rng w19 =
              (w19\<lparr>api_log := api_log w19 @ [prompt_cars],
                 catalog_file := Parsed (catalog_json ex_cars20 kpis)\<rparr>,
               Proceed (JArr (map JStr kpis)) (JArr (map JStr ex_cars20)))"
    and k: "length kpis = 5" "distinct kpis"
    by (elim exE conjE)
  have "w19\<lparr>api_log := api_log w19 @ [prompt_cars],
            catalog_file := Parsed (catalog_json ex_cars20 kpis)\<rparr>
        = \<lparr>catalog_file = Parsed (catalog_json ex_cars20 kpis), api_log = [prompt_cars]\<rparr>"
    by (simp add: w19_def ex_world_def)
  with g k have r2: "\<exists>kpis. regenerate api rng w19
         = (\<lparr>catalog_file = Parsed (catalog_json ex_cars20 kpis), api_log = [prompt_cars]\<rparr>,
            Proceed (JArr (map JStr kpis)) (JArr (map JStr ex_cars20)))
       \<and> length kpis = 5 \<and> distinct kpis"
    by (intro exI [of _ kpis] conjI) simp_all
  from T20 [THEN conjunct2, THEN conjunct2, THEN conjunct2, THEN conjunct2, THEN conjunct2,
      rule_format, OF h20]
  have r3: "step1 api rng w20
       = (w20, Proceed (JArr (map JStr ex_kpis5)) (JArr (map JStr ex_cars20)))" .
  from length_ex_cars19 r1 r2 r3 show ?thesis
    unfolding api_def rng_def w19_def w20_def by (intro conjI)
qed

text \<open>
  Claim C6 as stated fails for a catalog file that loads with exactly 20 cars and has
  no KPI list: line 75 raises \<^verbatim>\<open>KeyError\<close>, the handler catches it, the car-list prompt
  is sent and, the API answering with 20 names, the catalog file is rewritten.
\<close>

theorem step1_missing_kpi_list_counterexample:
  "catalog_file (ex_world ex_no_kpis) = Parsed ex_no_kpis
   \<and> py_getitem ex_no_kpis ''top_cars_US_2024'' = Inr (JArr (map JStr ex_cars20))
   \<and> py_len (JArr (map JStr ex_cars20)) = Inr 20
   \<and> api_log (fst (step1 (ex_api ex_cars20) (\<lambda>i. 0) (ex_world ex_no_kpis))) = [prompt_cars]
   \<and> catalog_file (fst (step1 (ex_api ex_cars20) (\<lambda>i. 0) (ex_world ex_no_kpis)))
       \<noteq> Parsed ex_no_kpis"
proof -
  define api where "api = ex_api ex_cars20"
  define rng where "rng = (\<lambda>i::nat. 0::nat)"
  define w where "w = ex_world ex_no_kpis"
  have f: "catalog_file w = Parsed ex_no_kpis" by (simp add: w_def ex_world_def)
  have g: "py_getitem ex_no_kpis ''top_cars_US_2024'' = Inr (JArr (map JStr ex_cars20))"
    by (simp add: ex_no_kpis_def)
  have l: "py_len (JArr (map JStr ex_cars20)) = Inr 20" by (simp add: length_ex_cars20)
  have "load_catalog (Parsed ex_no_kpis) = Inl KeyError"
    unfolding ex_no_kpis_def by (rule load_catalog_key_error) simp
  with f have "load_catalog (catalog_file w) = Inl KeyError" by simp
  then have s: "step1 api rng w = regenerate api rng w"
    by (rule step1_regenerates) simp
  have fe: "fetch_car_list (api prompt_cars) = Inr (Some ex_cars20)"
    unfolding api_def by (rule fetch_ex_cars20)
  from regenerate_success [where api = api and rng = rng and w = w, OF fe length_ex_cars20]
  obtain kpis where
    r: "regenerate api rng w =
            (w\<lparr>api_log := api_log w @ [prompt_cars],
               catalog_file := Parsed (catalog_json ex_cars20 kpis)\<rparr>,
             Proceed (JArr (map JStr kpis)) (JArr (map JStr ex_cars20)))"
    by (elim exE conjE)
  have a: "api_log (fst (step1 api rng w)) = [prompt_cars]"
    unfolding s r by (simp add: w_def ex_world_def)
  have "catalog_json ex_cars20 kpis \<noteq> ex_no_kpis"
    by (simp add: catalog_json_def ex_no_kpis_def)
  then have b: "catalog_file (fst (step1 api rng w)) \<noteq> Parsed ex_no_kpis"
    unfolding s r by simp
  from f g l a b show ?thesis unfolding api_def rng_def w_def by (intro conjI)
qed

text \<open>
  Claim C7. In the regeneration branch, when the API call fails (no response, or a
  response object without choices), or more generally when the fetch yields no list or
  a cleaned list whose length is not 20, the process exits with code 1 and the catalog
  file is as it was. Indeed whenever the branch does not go on to step 2 (an exit, or an
  exception that nothing catches), the exit status is 1 and the catalog file is as it
  was.
\<close>

theorem regenerate_failure_exits_without_write:
  "(api prompt_cars = None
      \<or> (\<exists>kvs. api prompt_cars = Some (JObj kvs)
            \<and> (map_of kvs ''choices'' = None \<or> map_of kvs ''choices'' = Some (JArr [])))
      \<or> fetch_car_list (api prompt_cars) = Inr None
      \<or> (\<exists>cars. fetch_car_list (api prompt_cars) = Inr (Some cars) \<and> length cars \<noteq> 20)
      \<longrightarrow> snd (regenerate api rng w) = Exit 1
          \<and> exit_status (snd (regenerate api rng w)) = Some 1
          \<and> catalog_file (fst (regenerate api rng w)) = catalog_file w)
   \<and> ((\<forall>k c. snd (regenerate api rng w) \<noteq> Proceed k c)
      \<longrightarrow> exit_status (snd (regenerate api rng w)) = Some 1
          \<and> catalog_file (fst (regenerate api rng w)) = catalog_file w)"
proof (intro conjI impI)
  assume h: "api prompt_cars = None
      \<or> (\<exists>kvs. api prompt_cars = Some (JObj kvs)
            \<and> (map_of kvs ''choices'' = None \<or> map_of kvs ''choices'' = Some (JArr [])))
      \<or> fetch_car_list (api prompt_cars) = Inr None
      \<or> (\<exists>cars. fetch_car_list (api prompt_cars) = Inr (Some cars) \<and> length cars \<noteq> 20)"
  have r: "regenerate api rng w = (w\<lparr>api_log := api_log w @ [prompt_cars]\<rparr>, Exit 1)"
    using h
  proof (elim disjE exE conjE)
    assume "api prompt_cars = None"
    then have "fetch_car_list (api prompt_cars) = Inr None" by (simp add: fetch_no_response)
    then show ?thesis by (rule regenerate_fetch_failed)
  next
    fix kvs
    assume "api prompt_cars = Some (JObj kvs)" and "map_of kvs ''choices'' = None"
    then have "fetch_car_list (api prompt_cars) = Inr None" by (simp add: fetch_no_choices)
    then show ?thesis by (rule regenerate_fetch_failed)
  next
    fix kvs
    assume "api prompt_cars = Some (JObj kvs)" and "map_of kvs ''choices'' = Some (JArr [])"
    then have "fetch_car_list (api prompt_cars) = Inr None" by (simp add: fetch_no_choices)
    then show ?thesis by (rule regenerate_fetch_failed)
  next
    assume "fetch_car_list (api prompt_cars) = Inr None"
    then show ?thesis by (rule regenerate_fetch_failed)
  next
    fix cars
    assume "fetch_car_list (api prompt_cars) = Inr (Some cars)" and "length cars \<noteq> 20"
    then show ?thesis by (rule regenerate_not_20)
  qed
  show "snd (regenerate api rng w) = Exit 1" by (simp add: r)
  show "exit_status (snd (regenerate api rng w)) = Some 1" by (simp add: r)
  show "catalog_file (fst (regenerate api rng w)) = catalog_file w" by (simp add: r)
next
  assume n: "\<forall>k c. snd (regenerate api rng w) \<noteq> Proceed k c"
  from regenerate_no_proceed [OF n]
  show "exit_status (snd (regenerate api rng w)) = Some 1"
    and "catalog_file (fst (regenerate api rng w)) = catalog_file w" by simp_all
qed

text \<open>An API that gives no response, and one that answers with 19 names: exit code 1,
  and the catalog file (here with 19 cars) is as it was.\<close>

theorem regenerate_failure_exits_without_write_witness:
  "snd (regenerate (\<lambda>prompt. None) (\<lambda>i. 0) (ex_world (catalog_json ex_cars19 ex_kpis5))) = Exit 1
   \<and> catalog_file (fst (regenerate (\<lambda>prompt. None) (\<lambda>i. 0)
         (ex_world (catalog_json ex_cars19 ex_kpis5))))
       = Parsed (catalog_json ex_cars19 ex_kpis5)
   \<and> fetch_car_list (ex_api ex_cars19 prompt_cars) = Inr (Some ex_cars19)
   \<and> length ex_cars19 = 19
   \<and> snd (regenerate (ex_api ex_cars19) (\<lambda>i. 0) (ex_world (catalog_json ex_cars19 ex_kpis5)))
       = Exit 1
   \<and> exit_status (snd (regenerate (ex_api ex_cars19) (\<lambda>i. 0)
         (ex_world (catalog_json ex_cars19 ex_kpis5)))) = Some 1
   \<and> catalog_file (fst (regenerate (ex_api ex_cars19) (\<lambda>i. 0)
         (ex_world (catalog_json ex_cars19 ex_kpis5))))
       = Parsed (catalog_json ex_cars19 ex_kpis5)"
proof -
  define rng where "rng = (\<lambda>i::nat. 0::nat)"
  define w where "w = ex_world (catalog_json ex_cars19 ex_kpis5)"
  define api0 where "api0 = (\<lambda>prompt::string. None::json option)"
  define api19 where "api19 = ex_api ex_cars19"
  have f: "catalog_file w = Parsed (catalog_json ex_cars19 ex_kpis5)"
    by (simp add: w_def ex_world_def)
  have h0: "api0 prompt_cars = None
      \<or> (\<exists>kvs. api0 prompt_cars = Some (JObj kvs)
            \<and> (map_of kvs ''choices'' = None \<or> map_of kvs ''choices'' = Some (JArr [])))
      \<or> fetch_car_list (api0 prompt_cars) = Inr None
      \<or> (\<exists>cars. fetch_car_list (api0 prompt_cars) = Inr (Some cars) \<and> length cars \<noteq> 20)"
    by (rule disjI1) (simp add: api0_def)
  have fe: "fetch_car_list (api19 prompt_cars) = Inr (Some ex_cars19)"
    unfolding api19_def by (rule fetch_ex_cars19)
  have "length ex_cars19 \<noteq> 20" by (simp add: length_ex_cars19)
  with fe have h19: "api19 prompt_cars = None
      \<or> (\<exists>kvs. api19 prompt_cars = Some (JObj kvs)
            \<and> (map_of kvs ''choices'' = None \<or> map_of kvs ''choices'' = Some (JArr [])))
      \<or> fetch_car_list (api19 prompt_cars) = Inr None
      \<or> (\<exists>cars. fetch_car_list (api19 prompt_cars) = Inr (Some cars) \<and> length cars \<noteq> 20)"
    by (intro disjI2 exI [of _ ex_cars19] conjI)
  from regenerate_failure_exits_without_write [of api0 rng w, THEN conjunct1, THEN mp, OF h0] f
  have a: "snd (regenerate api0 rng w) = Exit 1"
    "catalog_file (fst (regenerate api0 rng w)) = Parsed (catalog_json ex_cars19 ex_kpis5)"
    by simp_all
  from regenerate_failure_exits_without_write [of api19 rng w, THEN conjunct1, THEN mp, OF h19] f
  have b: "snd (regenerate api19 rng w) = Exit 1"
    "exit_status (snd (regenerate api19 rng w)) = Some 1"
    "catalog_file (fst (regenerate api19 rng w)) = Parsed (catalog_json ex_cars19 ex_kpis5)"
    by simp_all
  from a fe length_ex_cars19 b show ?thesis
    unfolding rng_def w_def api0_def api19_def by (intro conjI)
qed

text \<open>
  Claim C9. A catalog with a car list of 20 entries, written under the keys
  \<^verbatim>\<open>top_cars_US_2024\<close> and \<^verbatim>\<open>top_5_KPIs\<close>, loads as the same two lists. So whenever the
  regeneration branch has written a catalog and gone on with a KPI list and a car list,
  a later run of step 1 on that world, whatever the API and the random source, loads
  the same two lists and leaves the world as it is.
\<close>

theorem catalog_round_trip:
  "(length car_list = 20 \<longrightarrow>
      load_catalog (Parsed (catalog_json car_list kpi_list))
        = Inr (JArr (map JStr kpi_list), JArr (map JStr car_list)))
   \<and> (\<forall>w' k c. regenerate api rng w = (w', Proceed k c)
        \<longrightarrow> step1 api' rng' w' = (w', Proceed k c))"
proof (intro conjI impI allI)
  assume "length car_list = 20"
  then show "load_catalog (Parsed (catalog_json car_list kpi_list))
        = Inr (JArr (map JStr kpi_list), JArr (map JStr car_list))"
    by (rule load_catalog_round_trip)
next
  fix w' k c
  assume "regenerate api rng w = (w', Proceed k c)"
  from regenerate_proceed_cases [OF this] obtain cars kpis where
    l: "length cars = 20"
    and w': "w' = w\<lparr>api_log := api_log w @ [prompt_cars],
               catalog_file := Parsed (catalog_json cars kpis)\<rparr>"
    and k: "k = JArr (map JStr kpis)" and c: "c = JArr (map JStr cars)"
    by (elim exE conjE)
  have "catalog_file w' = Parsed (catalog_json cars kpis)" by (simp add: w')
  with load_catalog_round_trip [OF l, of kpis]
  have "load_catalog (catalog_file w') = Inr (k, c)" by (simp add: k c)
  then show "step1 api' rng' w' = (w', Proceed k c)" by (rule step1_loaded)
qed

text \<open>The example catalog of 20 cars and 5 KPIs, and a run that regenerates the
  catalog (the API answering with 20 names) followed by a run with an API that gives no
  response.\<close>

theorem catalog_round_trip_witness:
  "length ex_cars20 = 20
   \<and> load_catalog (Parsed (catalog_json ex_cars20 ex_kpis5))
       = Inr (JArr (map JStr ex_kpis5), JArr (map JStr ex_cars20))
   \<and> (\<exists>w' k c. regenerate (ex_api ex_cars20) (\<lambda>i. 0) (ex_world ex_no_kpis) = (w', Proceed k c)
         \<and> step1 (\<lambda>prompt. None) (\<lambda>i. 1) w' = (w', Proceed k c))"
proof -
  define api where "api = ex_api ex_cars20"
  define rng where "rng = (\<lambda>i::nat. 0::nat)"
  define api' where "api' = (\<lambda>prompt::string. None::json option)"
  define rng' where "rng' = (\<lambda>i::nat. 1::nat)"
  define w where "w = ex_world ex_no_kpis"
  note T = catalog_round_trip [of ex_cars20 ex_kpis5 api rng w api' rng']
  from T [THEN conjunct1, THEN mp, OF length_ex_cars20]
  have a: "load_catalog (Parsed (catalog_json ex_cars20 ex_kpis5))
       = Inr (JArr (map JStr ex_kpis5), JArr (map JStr ex_cars20))" .
  have fe: "fetch_car_list (api prompt_cars) = Inr (Some ex_cars20)"
    unfolding api_def by (rule fetch_ex_cars20)
  from regenerate_success [where api = api and rng = rng and w = w, OF fe length_ex_cars20]
  obtain kpis where
    r: "regenerate api rng w =
            (w\<lparr>api_log := api_log w @ [prompt_cars],
               catalog_file := Parsed (catalog_json ex_cars20 kpis)\<rparr>,
             Proceed (JArr (map JStr kpis)) (JArr (map JStr ex_cars20)))"
    by (elim exE conjE)
  from T [THEN conjunct2, rule_format, OF r]
  have s: "step1 api' rng'
        (w\<lparr>api_log := api_log w @ [prompt_cars],
           catalog_file := Parsed (catalog_json ex_cars20 kpis)\<rparr>)
      = (w\<lparr>api_log := api_log w @ [prompt_cars],
           catalog_file := Parsed (catalog_json ex_cars20 kpis)\<rparr>,
         Proceed (JArr (map JStr kpis)) (JArr (map JStr ex_cars20)))" .
  from r s have b: "\<exists>w' k c. regenerate api rng w = (w', Proceed k c)
         \<and> step1 api' rng' w' = (w', Proceed k c)" by blast
  from length_ex_cars20 a b show ?thesis
    unfolding api_def rng_def api'_def rng'_def w_def by (intro conjI)
qed

end
